theory Spec2Isabelle
  imports Main "HOL-Library.Word" "HOL-Library.Sublist"
begin

unbundle bit_operations_syntax

section \<open>Data model and screen (terminal/terminal.go)\<close>

text \<open>
  Go's \<open>byte\<close> is an 8-bit word; a Go \<open>string\<close> is the list of its bytes; a \<open>rune\<close> is
  a code point, kept as an integer. Go's \<open>int\<close> is modelled by \<open>int\<close>; where the source
  computes with values it does not control (cursor arithmetic on CSI parameters, the
  increment of \<open>pos\<close>) the 64-bit wrap-around is written out with \<open>wrap64\<close>.
\<close>

type_synonym byte = "8 word"
type_synonym gostring = "byte list"
type_synonym rune = int

definition wrap64 :: "int \<Rightarrow> int" where
  "wrap64 x = (x + 2 ^ 63) mod 2 ^ 64 - 2 ^ 63"

text \<open>A string literal of the source, as bytes.\<close>

definition str :: "string \<Rightarrow> gostring" where
  "str s = map (\<lambda>c. of_nat (of_char c)) s"

text \<open>
  Modelled from the spec: the declarations of the \<open>Color\<close> interface and of its two
  implementations \<open>ANSIColor\<close> and \<open>RGBColor\<close> are not among the sources. The spec
  gives an indexed color (0-255) and a direct color of three 8-bit components; the
  handlers build them as \<open>ANSIColor(n)\<close> and \<open>RGBColor{uint8(r), uint8(g), uint8(b)}\<close>.
  A \<open>nil\<close> color (the default) is \<open>None\<close> at the fields that hold a color.
\<close>

datatype Color = ANSIColor "8 word" | RGBColor "8 word" "8 word" "8 word"

type_synonym styleFlags = "32 word"

definition Bold :: styleFlags where "Bold = push_bit 0 1"
definition Dim :: styleFlags where "Dim = push_bit 1 1"
definition Italic :: styleFlags where "Italic = push_bit 2 1"
definition Underline :: styleFlags where "Underline = push_bit 3 1"
definition Blink :: styleFlags where "Blink = push_bit 4 1"
definition Inverted :: styleFlags where "Inverted = push_bit 5 1"
definition Hidden :: styleFlags where "Hidden = push_bit 6 1"
definition Strikethrough :: styleFlags where "Strikethrough = push_bit 7 1"
definition DoubleUnderline :: styleFlags where "DoubleUnderline = push_bit 8 1"
definition Superscript :: styleFlags where "Superscript = push_bit 9 1"
definition Subscript :: styleFlags where "Subscript = push_bit 10 1"

record styleAttributes =
  styleFlags :: styleFlags
  fg :: "Color option"
  bg :: "Color option"
  underline :: "Color option"
  uri :: gostring

text \<open>The zero value \<open>styleAttributes{}\<close>.\<close>

definition zeroAttributes :: styleAttributes where
  "zeroAttributes = \<lparr>styleFlags = 0, fg = None, bg = None, underline = None, uri = []\<rparr>"

definition Empty :: "styleAttributes \<Rightarrow> bool" where
  "Empty a = (a = zeroAttributes)"

definition hasStyle :: "styleAttributes \<Rightarrow> styleFlags \<Rightarrow> bool" where
  "hasStyle a flags = (styleFlags a AND flags \<noteq> 0)"

text \<open>
  A node holds a pointer to its bundle, and many nodes share one bundle. Pointers are
  addresses into an explicit store: \<open>heap\<close> lists every bundle allocated so far, a
  \<open>*styleAttributes\<close> that is not \<open>nil\<close> is an index into it, \<open>&styleAttributes{...}\<close>
  appends a cell and \<open>p.field = v\<close> updates the cell at \<open>p\<close> in place. The pointer of a
  node is \<open>None\<close> when it is \<open>nil\<close>: the code never writes such a node, but the zero
  value of \<open>node\<close>, which fills the unused cells of an array, is one.
\<close>

type_synonym addr = nat

record node =
  rune :: rune
  attrs :: "addr option"

definition zeroNode :: node where
  "zeroNode = \<lparr>rune = 0, attrs = None\<rparr>"

text \<open>
  The slice \<open>activeLine\<close> is a window on a backing array that may be longer than the
  slice: \<open>activeLine\<close> holds the cells of the slice and \<open>spare\<close> the cells of the array
  after them, so that \<open>len(activeLine)\<close> is \<open>length activeLine\<close> and \<open>cap(activeLine)\<close>
  is \<open>length activeLine + length spare\<close>. A spare cell holds what was last stored in
  it: a node the line has since been cut back from, or the zero node.

  When \<open>append\<close> finds the array full it allocates a new one, and the Go runtime, not
  this code, chooses how many cells the new array has beyond the one appended.
  \<open>growth\<close> lists these numbers for the allocations to come, the next one first;
  an empty list stands for arrays that fit exactly. A statement about every \<open>growth\<close>
  holds whatever the runtime chooses.

  A line in \<open>scrollback\<close> is never written or sliced again, so only its cells are kept.
\<close>

record screen =
  heap :: "styleAttributes list"
  scrollback :: "node list list"
  activeLine :: "node list"
  spare :: "node list"
  growth :: "nat list"
  pos :: int
  activeAttributes :: addr

text \<open>Run-time panics of the Go code are values.\<close>

datatype fault =
    IndexOutOfRange
  | SliceBoundsOutOfRange
  | NilDereference
  | NilParamSlice
  | NonIntegerParam
  | NilUpgradeHook

definition newScreen :: screen where
  "newScreen = \<lparr>heap = [zeroAttributes], scrollback = [], activeLine = [], spare = [],
     growth = [], pos = 0, activeAttributes = 0\<rparr>"

text \<open>
  \<open>s.activeLine = append(s.activeLine, n)\<close>: into the next spare cell when there is
  one, and otherwise into a new array with as many further cells, all zero, as
  \<open>growth\<close> says.
\<close>

definition appendNode :: "node \<Rightarrow> screen \<Rightarrow> screen" where
  "appendNode n s =
     (case spare s of
        c # cs \<Rightarrow> s\<lparr>activeLine := activeLine s @ [n], spare := cs\<rparr>
      | [] \<Rightarrow>
          (case growth s of
             [] \<Rightarrow> s\<lparr>activeLine := activeLine s @ [n]\<rparr>
           | k # ks \<Rightarrow>
               s\<lparr>activeLine := activeLine s @ [n], spare := replicate k zeroNode, growth := ks\<rparr>))"

definition print :: "rune \<Rightarrow> screen \<Rightarrow> fault + screen" where
  "print r s =
     (let n = \<lparr>rune = r, attrs = Some (activeAttributes s)\<rparr> in
      if pos s < int (length (activeLine s)) then
        (if pos s < 0 then Inl IndexOutOfRange
         else Inr (s\<lparr>activeLine := (activeLine s)[nat (pos s) := n], pos := wrap64 (pos s + 1)\<rparr>))
      else Inr ((appendNode n s)\<lparr>pos := wrap64 (pos s + 1)\<rparr>))"

text \<open>
  \<open>backspace\<close>: \<open>activeLine[:pos-1]\<close> panics when \<open>pos - 1 < 0\<close>, and
  \<open>activeLine[pos:]\<close> when \<open>pos\<close> exceeds the length (for such a \<open>pos\<close> the first slice
  expression may already have panicked on the capacity: a panic either way). In the
  remaining case \<open>1 \<le> pos\<close>, so the decrement cannot overflow. The \<open>append\<close> has
  room in the array: it moves the cells after the cursor down by one in place, and the
  cell that held the last node keeps it, now as the first spare cell.
\<close>

definition backspace :: "screen \<Rightarrow> fault + screen" where
  "backspace s =
     (if length (activeLine s) = 0 then Inr s
      else if pos s - 1 < 0 \<or> int (length (activeLine s)) < pos s then Inl SliceBoundsOutOfRange
      else Inr (s\<lparr>activeLine := take (nat (pos s - 1)) (activeLine s) @ drop (nat (pos s)) (activeLine s),
                  spare := last (activeLine s) # spare s,
                  pos := pos s - 1\<rparr>))"

text \<open>\<open>s.activeLine = nil\<close>: no array, so no spare cells.\<close>

definition newline :: "screen \<Rightarrow> screen" where
  "newline s =
     s\<lparr>scrollback := scrollback s @ [activeLine s], activeLine := [], spare := [], pos := 0\<rparr>"

text \<open>The loop of \<open>setPos\<close>: \<open>for i := len(s.activeLine); i < y; i++ { s.print(' ') }\<close>.\<close>

function setPos_loop :: "int \<Rightarrow> int \<Rightarrow> screen \<Rightarrow> fault + screen" where
  "setPos_loop i y s =
     (if i < y then
        (case print 32 s of
           Inl e \<Rightarrow> Inl e
         | Inr s' \<Rightarrow> setPos_loop (i + 1) y s')
      else Inr s)"
  by pat_completeness auto
termination
  by (relation "measure (\<lambda>(i, y, s). nat (y - i))") auto

declare setPos_loop.simps [simp del]

definition setPos :: "int \<Rightarrow> int \<Rightarrow> screen \<Rightarrow> fault + screen" where
  "setPos x y s =
     (if y < 0 then Inr (s\<lparr>pos := 0\<rparr>)
      else (case setPos_loop (int (length (activeLine s))) y s of
              Inl e \<Rightarrow> Inl e
            | Inr s' \<Rightarrow> Inr (s'\<lparr>pos := y\<rparr>)))"

definition left :: "int \<Rightarrow> screen \<Rightarrow> fault + screen" where
  "left n s = setPos 0 (wrap64 (pos s - n)) s"

definition right :: "int \<Rightarrow> screen \<Rightarrow> fault + screen" where
  "right n s = setPos 0 (wrap64 (pos s + n)) s"

definition cr :: "screen \<Rightarrow> screen" where
  "cr s = s\<lparr>pos := 0\<rparr>"

function newlines_loop :: "int \<Rightarrow> int \<Rightarrow> screen \<Rightarrow> screen" where
  "newlines_loop i n s = (if i < n then newlines_loop (i + 1) n (newline s) else s)"
  by pat_completeness auto
termination
  by (relation "measure (\<lambda>(i, n, s). nat (n - i))") auto

declare newlines_loop.simps [simp del]

definition newlines :: "int \<Rightarrow> screen \<Rightarrow> screen" where
  "newlines n s = newlines_loop 0 n s"

text \<open>\<open>s.activeLine = []node{}\<close>: an empty slice of capacity 0.\<close>

definition clear :: "screen \<Rightarrow> screen" where
  "clear s = s\<lparr>activeLine := [], spare := [], pos := 0\<rparr>"

function clearLeft_loop :: "int \<Rightarrow> screen \<Rightarrow> fault + screen" where
  "clearLeft_loop i s =
     (if i < pos s then
        (if i < 0 \<or> int (length (activeLine s)) \<le> i then Inl IndexOutOfRange
         else clearLeft_loop (i + 1)
                (s\<lparr>activeLine := (activeLine s)[nat i := \<lparr>rune = 32, attrs = Some (activeAttributes s)\<rparr>]\<rparr>))
      else Inr s)"
  by pat_completeness auto
termination
  by (relation "measure (\<lambda>(i, s). nat (pos s - i))") auto

declare clearLeft_loop.simps [simp del]

definition clearLeft :: "screen \<Rightarrow> fault + screen" where
  "clearLeft s = clearLeft_loop 0 s"

text \<open>
  \<open>s.activeLine = s.activeLine[:s.pos]\<close>: a slice expression may reach beyond the
  length, up to the capacity. It panics for \<open>pos < 0\<close> and for \<open>pos > cap(activeLine)\<close>;
  otherwise the slice becomes the first \<open>pos\<close> cells of the array, which brings spare
  cells back into the line when \<open>pos\<close> exceeds the length.
\<close>

definition clearRight :: "screen \<Rightarrow> fault + screen" where
  "clearRight s =
     (if pos s < 0 \<or> int (length (activeLine s) + length (spare s)) < pos s
      then Inl SliceBoundsOutOfRange
      else Inr (s\<lparr>activeLine := take (nat (pos s)) (activeLine s @ spare s),
                  spare := drop (nat (pos s)) (activeLine s @ spare s)\<rparr>))"

subsection \<open>The attribute mutators\<close>

text \<open>\<open>cpy := *s.activeAttributes; s.activeAttributes = &cpy\<close>\<close>

definition copyAttributes :: "screen \<Rightarrow> screen" where
  "copyAttributes s =
     s\<lparr>heap := heap s @ [heap s ! activeAttributes s], activeAttributes := length (heap s)\<rparr>"

definition resetAttributes :: "screen \<Rightarrow> screen" where
  "resetAttributes s = s\<lparr>heap := heap s @ [zeroAttributes], activeAttributes := length (heap s)\<rparr>"

text \<open>An assignment through the pointer \<open>s.activeAttributes\<close>.\<close>

definition storeActive :: "(styleAttributes \<Rightarrow> styleAttributes) \<Rightarrow> screen \<Rightarrow> screen" where
  "storeActive f s = s\<lparr>heap := (heap s)[activeAttributes s := f (heap s ! activeAttributes s)]\<rparr>"

definition setStyle :: "styleFlags \<Rightarrow> screen \<Rightarrow> screen" where
  "setStyle flags s =
     storeActive (\<lambda>a. a\<lparr>styleFlags := styleFlags a OR flags\<rparr>) (copyAttributes s)"

definition resetStyle :: "styleFlags \<Rightarrow> screen \<Rightarrow> screen" where
  "resetStyle flags s =
     storeActive (\<lambda>a. a\<lparr>styleFlags := styleFlags a AND NOT flags\<rparr>) (copyAttributes s)"

definition setFg :: "Color option \<Rightarrow> screen \<Rightarrow> screen" where
  "setFg color s = storeActive (\<lambda>a. a\<lparr>fg := color\<rparr>) (copyAttributes s)"

definition setBg :: "Color option \<Rightarrow> screen \<Rightarrow> screen" where
  "setBg color s = storeActive (\<lambda>a. a\<lparr>bg := color\<rparr>) (copyAttributes s)"

definition resetFg :: "screen \<Rightarrow> screen" where
  "resetFg s = setFg None s"

definition resetBg :: "screen \<Rightarrow> screen" where
  "resetBg s = setBg None s"

definition setURI :: "gostring \<Rightarrow> screen \<Rightarrow> screen" where
  "setURI u s = storeActive (\<lambda>a. a\<lparr>uri := u\<rparr>) (copyAttributes s)"

definition resetURI :: "screen \<Rightarrow> screen" where
  "resetURI s = storeActive (\<lambda>a. a\<lparr>uri := []\<rparr>) (copyAttributes s)"

section \<open>Library functions the handlers and the renderer call\<close>

text \<open>
  \<open>strconv.Atoi\<close> (Go standard library, 64-bit \<open>int\<close>): an optional sign, then one or
  more decimal digits, and the value within the range of \<open>int\<close>; anything else is an
  error (\<open>None\<close>).
\<close>

definition isDigit :: "byte \<Rightarrow> bool" where
  "isDigit c = (0x30 \<le> c \<and> c \<le> 0x39)"

definition Atoi :: "gostring \<Rightarrow> int option" where
  "Atoi s =
     (let neg = (s \<noteq> [] \<and> hd s = 0x2D);
          ds = (if s \<noteq> [] \<and> (hd s = 0x2D \<or> hd s = 0x2B) then tl s else s)
      in if ds = [] then None
         else if list_ex (\<lambda>d. \<not> isDigit d) ds then None
         else (let n = foldl (\<lambda>a d. a * 10 + (uint d - 48)) 0 ds;
                   v = (if neg then - n else n)
               in if - (2 ^ 63) \<le> v \<and> v < 2 ^ 63 then Some v else None))"

text \<open>
  \<open>html.EscapeString\<close>: the five characters \<open>& ' < > "\<close> are replaced, byte by byte.
\<close>

definition escapeByte :: "byte \<Rightarrow> gostring" where
  "escapeByte c =
     (if c = 0x26 then str ''&amp;''
      else if c = 0x27 then str ''&#39;''
      else if c = 0x3C then str ''&lt;''
      else if c = 0x3E then str ''&gt;''
      else if c = 0x22 then str ''&#34;''
      else [c])"

definition EscapeString :: "gostring \<Rightarrow> gostring" where
  "EscapeString s = concat (map escapeByte s)"

text \<open>
  The conversion \<open>string(r)\<close> of a rune: its UTF-8 encoding, and the encoding of U+FFFD
  for a value that is no Unicode scalar.
\<close>

definition runeString :: "rune \<Rightarrow> gostring" where
  "runeString r =
     (if r < 0 \<or> 0x10FFFF < r \<or> (0xD800 \<le> r \<and> r \<le> 0xDFFF) then [0xEF, 0xBF, 0xBD]
      else if r \<le> 0x7F then [word_of_int r]
      else if r \<le> 0x7FF then [word_of_int (0xC0 + r div 64), word_of_int (0x80 + r mod 64)]
      else if r \<le> 0xFFFF then
        [word_of_int (0xE0 + r div 4096), word_of_int (0x80 + r div 64 mod 64),
         word_of_int (0x80 + r mod 64)]
      else
        [word_of_int (0xF0 + r div 262144), word_of_int (0x80 + r div 4096 mod 64),
         word_of_int (0x80 + r div 64 mod 64), word_of_int (0x80 + r mod 64)])"

text \<open>
  \<open>bufio.Reader.ReadRune\<close> on the bytes still to be read (at least one): the rune and
  the number of bytes it takes. A byte below 0x80 is itself; otherwise
  \<open>utf8.DecodeRune\<close> decides, and an invalid or truncated encoding is U+FFFD of width 1.
\<close>

definition cont :: "byte \<Rightarrow> int" where
  "cont b = uint b mod 64"

definition inRange :: "byte \<Rightarrow> byte \<Rightarrow> byte \<Rightarrow> bool" where
  "inRange lo hi b = (lo \<le> b \<and> b \<le> hi)"

definition DecodeRune :: "byte list \<Rightarrow> rune \<times> nat" where
  "DecodeRune p =
     (let p0 = p ! 0;
          sz = (if inRange 0xC2 0xDF p0 then 2 else if inRange 0xE0 0xEF p0 then 3
                else if inRange 0xF0 0xF4 p0 then 4 else 0 :: nat);
          lo = (if p0 = 0xE0 then 0xA0 else if p0 = 0xF0 then 0x90 else 0x80);
          hi = (if p0 = 0xED then 0x9F else if p0 = 0xF4 then 0x8F else 0xBF)
      in if sz = 0 \<or> length p < sz then (0xFFFD, 1)
         else if \<not> inRange lo hi (p ! 1) then (0xFFFD, 1)
         else if sz = 2 then ((uint p0 mod 32) * 64 + cont (p ! 1), 2)
         else if \<not> inRange 0x80 0xBF (p ! 2) then (0xFFFD, 1)
         else if sz = 3 then ((uint p0 mod 16) * 4096 + cont (p ! 1) * 64 + cont (p ! 2), 3)
         else if \<not> inRange 0x80 0xBF (p ! 3) then (0xFFFD, 1)
         else ((uint p0 mod 8) * 262144 + cont (p ! 1) * 4096 + cont (p ! 2) * 64 + cont (p ! 3), 4))"

definition ReadRune :: "byte list \<Rightarrow> rune \<times> nat" where
  "ReadRune p = (if p ! 0 < 0x80 then (uint (p ! 0), 1) else DecodeRune p)"

section \<open>The terminal and its dispatch handlers (terminal/handlers.go)\<close>

text \<open>
  The parser's scratch state (terminal/parser.go). The state functions of the source are
  first-class values; here a state is a tag, \<open>None\<close> is the \<open>nil\<close> state. The reader
  \<open>buf\<close> is not a field: the bytes still to be read are passed along explicitly.
\<close>

datatype pstate =
    ParseOutput | ParseEscape | ParseEscapeIntermediate | ParseOSCString
  | ParseCSIEntry | ParseCSIParam | ParseCSIIntermediate | ParseCSIIgnore
  | ParseDCSEntry | ParseDCSIntermediate | ParseDCSParam | ParseDCSPassthrough
  | ParseIgnoreAll

record parser =
  state :: "pstate option"
  partialParam :: gostring
  partialParams :: "gostring list"
  partialIntermediates :: gostring

text \<open>
  \<open>RichTextTerminal\<close>. The hook is an external function: \<open>upgradeHook\<close> records whether
  one is registered (a \<open>nil\<close> hook panics when called) and \<open>hookCalls\<close> counts its
  invocations. The pty (\<open>src\<close>, \<open>pty.Setsize\<close>) and the copy \<open>raw\<close> of the bytes read are
  outside the model.
\<close>

record RichTextTerminal =
  parser :: parser
  screen :: screen
  upgraded :: bool
  upgradeHook :: bool
  hookCalls :: nat

text \<open>A method of the embedded screen, called on the terminal.\<close>

definition onScreen :: "(screen \<Rightarrow> screen) \<Rightarrow> RichTextTerminal \<Rightarrow> RichTextTerminal" where
  "onScreen f t = t\<lparr>screen := f (screen t)\<rparr>"

definition onScreenF :: "(screen \<Rightarrow> fault + screen) \<Rightarrow> RichTextTerminal \<Rightarrow> fault + RichTextTerminal" where
  "onScreenF f t = (case f (screen t) of Inl e \<Rightarrow> Inl e | Inr s \<Rightarrow> Inr (t\<lparr>screen := s\<rparr>))"

text \<open>\<open>upgrade\<close> (terminal/render.go): the flag is set, then the hook is called.\<close>

definition upgrade :: "RichTextTerminal \<Rightarrow> fault + RichTextTerminal" where
  "upgrade t =
     (let t1 = t\<lparr>upgraded := True\<rparr> in
      if upgradeHook t1 then Inr (t1\<lparr>hookCalls := hookCalls t1 + 1\<rparr>) else Inl NilUpgradeHook)"

definition printRune :: "rune \<Rightarrow> RichTextTerminal \<Rightarrow> fault + RichTextTerminal" where
  "printRune r t = onScreenF (print r) t"

definition handleCtrl :: "byte \<Rightarrow> RichTextTerminal \<Rightarrow> fault + RichTextTerminal" where
  "handleCtrl c t =
     (if c = 0x09 then printRune 9 t
      else if c = 0x07 then Inr t
      else if c = 0x08 then onScreenF (left 1) t
      else if c = 0x7F then onScreenF backspace t
      else if c = 0x0D then Inr (onScreen cr t)
      else if c = 0x0A \<or> c = 0x0C \<or> c = 0x0B \<or> c = 0x85 then Inr (onScreen newline t)
      else Inr t)"

definition handleEsc :: "gostring \<Rightarrow> byte \<Rightarrow> RichTextTerminal \<Rightarrow> fault + RichTextTerminal" where
  "handleEsc intermediates final t =
     (if intermediates = [] then
        (if final = 0x63 then Inr (onScreen resetAttributes (onScreen newline t)) else Inr t)
      else Inr t)"

text \<open>
  The closure \<open>convertParamsWithDefault\<close> of \<open>handleCSI\<close>: the converted vector, or the
  panic on the first parameter \<open>strconv.Atoi\<close> rejects.
\<close>

fun convertParamsWithDefault :: "int \<Rightarrow> gostring list \<Rightarrow> fault + int list" where
  "convertParamsWithDefault defaultValue [] = Inr []"
| "convertParamsWithDefault defaultValue (p # ps) =
     (if p = [] then
        (case convertParamsWithDefault defaultValue ps of
           Inl e \<Rightarrow> Inl e
         | Inr ns \<Rightarrow> Inr (defaultValue # ns))
      else
        (case Atoi p of
           None \<Rightarrow> Inl NonIntegerParam
         | Some n \<Rightarrow>
             (case convertParamsWithDefault defaultValue ps of
                Inl e \<Rightarrow> Inl e
              | Inr ns \<Rightarrow> Inr (n # ns))))"

text \<open>The closure \<open>handleColorSeq\<close> of \<open>handleSGR\<close>: the new screen and the count handled.\<close>

definition handleColorSeq ::
    "(Color option \<Rightarrow> screen \<Rightarrow> screen) \<Rightarrow> int list \<Rightarrow> screen \<Rightarrow> screen \<times> nat" where
  "handleColorSeq setColor nParams s =
     (if 5 \<le> length nParams \<and> nParams ! 1 = 2 then
        (setColor (Some (RGBColor (word_of_int (nParams ! 2)) (word_of_int (nParams ! 3))
                                  (word_of_int (nParams ! 4)))) s, 5)
      else if 3 \<le> length nParams \<and> nParams ! 1 = 5 then
        (setColor (Some (ANSIColor (word_of_int (nParams ! 2)))) s, 3)
      else (s, 1))"

text \<open>
  The first \<open>switch\<close> of \<open>handleSGR\<close>, on \<open>nParams[0]\<close>, in the order of the source:
  \<open>Inl\<close> is a case that returns (\<open>return handleColorSeq(...)\<close>), \<open>Inr\<close> one that goes on
  to the second \<open>switch\<close>.
\<close>

definition sgrSwitch :: "int \<Rightarrow> int list \<Rightarrow> screen \<Rightarrow> (screen \<times> nat) + screen" where
  "sgrSwitch p nParams s =
     (if p = 0 then Inr (resetAttributes s)
      else if p = 1 then Inr (setStyle Bold s)
      else if p = 2 then Inr (setStyle Dim s)
      else if p = 3 then Inr (setStyle Italic s)
      else if p = 4 then Inr (setStyle Underline s)
      else if p = 5 \<or> p = 6 then Inr (setStyle Blink s)
      else if p = 7 then Inr (setStyle Inverted s)
      else if p = 8 then Inr (setStyle Hidden s)
      else if p = 9 then Inr (setStyle Strikethrough s)
      else if p = 21 then Inr (resetStyle Bold s)
      else if p = 22 then Inr (resetStyle Dim s)
      else if p = 23 then Inr (resetStyle Italic s)
      else if p = 24 then Inr (resetStyle Underline s)
      else if p = 25 then Inr (resetStyle Blink s)
      else if p = 27 then Inr (resetStyle Inverted s)
      else if p = 28 then Inr (resetStyle Hidden s)
      else if p = 29 then Inr (resetStyle Strikethrough s)
      else if p = 38 then Inl (handleColorSeq setFg nParams s)
      else if p = 39 then Inr (resetFg s)
      else if p = 48 then Inl (handleColorSeq setBg nParams s)
      else if p = 49 then Inr (resetBg s)
      else if p = 73 then Inr (resetStyle Subscript (setStyle Superscript s))
      else if p = 74 then Inr (resetStyle Superscript (setStyle Subscript s))
      else if p = 75 then Inr (resetStyle (Superscript OR Subscript) s)
      else Inr s)"

text \<open>The second \<open>switch\<close> of \<open>handleSGR\<close>, on the ranges of \<open>nParams[0]\<close>.\<close>

definition sgrRanges :: "int \<Rightarrow> screen \<Rightarrow> screen" where
  "sgrRanges p s =
     (if 30 \<le> p \<and> p \<le> 37 then setFg (Some (ANSIColor (word_of_int (p - 30)))) s
      else if 40 \<le> p \<and> p \<le> 47 then setBg (Some (ANSIColor (word_of_int (p - 40)))) s
      else if 90 \<le> p \<and> p \<le> 97 then setFg (Some (ANSIColor (word_of_int (p - 90 + 8)))) s
      else if 100 \<le> p \<and> p \<le> 107 then setBg (Some (ANSIColor (word_of_int (p - 100 + 8)))) s
      else s)"

definition handleSGR :: "int list \<Rightarrow> screen \<Rightarrow> fault + (screen \<times> nat)" where
  "handleSGR nParams s =
     (case nParams of
        [] \<Rightarrow> Inl IndexOutOfRange
      | p # _ \<Rightarrow>
          (case sgrSwitch p nParams s of
             Inl returned \<Rightarrow> Inr returned
           | Inr s1 \<Rightarrow> Inr (sgrRanges p s1, 1)))"

lemma handleSGR_handled: "handleSGR nParams s = Inr (s', handled) \<Longrightarrow> 1 \<le> handled"
  by (auto simp: handleSGR_def sgrSwitch_def handleColorSeq_def
      split: list.splits sum.splits if_splits)

text \<open>
  The loop of the \<open>'m'\<close> case of \<open>handleCSI\<close>:
  \<open>for len(nParams) > 0 { handled := t.handleSGR(nParams); nParams = nParams[handled:] }\<close>.
\<close>

function sgr_loop :: "int list \<Rightarrow> screen \<Rightarrow> fault + screen" where
  "sgr_loop nParams s =
     (if 0 < length nParams then
        (case handleSGR nParams s of
           Inl e \<Rightarrow> Inl e
         | Inr (s', handled) \<Rightarrow>
             if length nParams < handled then Inl SliceBoundsOutOfRange
             else sgr_loop (drop handled nParams) s')
      else Inr s)"
  by pat_completeness auto
termination
proof (relation "measure (\<lambda>(nParams, s). length nParams)")
  show "wf (measure (\<lambda>(nParams, s). length nParams))"
    by simp
next
  fix nParams :: "int list" and s :: screen and x2 :: "screen \<times> nat" and x y
  assume "0 < length nParams" and h: "handleSGR nParams s = Inr x2" and "(x, y) = x2"
  then have "handleSGR nParams s = Inr (x, y)"
    by simp
  then have "1 \<le> y"
    by (rule handleSGR_handled)
  with \<open>0 < length nParams\<close>
  show "((drop y nParams, x), (nParams, s)) \<in> measure (\<lambda>(nParams, s). length nParams)"
    by simp
qed

declare sgr_loop.simps [simp del]

text \<open>The loop of the \<open>'h'\<close> case: \<open>for _, param := range nParams\<close>.\<close>

fun upgrade_loop :: "int list \<Rightarrow> RichTextTerminal \<Rightarrow> fault + RichTextTerminal" where
  "upgrade_loop [] t = Inr t"
| "upgrade_loop (param # rest) t =
     (if param = 47 \<or> param = 1049 then
        (case upgrade t of Inl e \<Rightarrow> Inl e | Inr t' \<Rightarrow> upgrade_loop rest t')
      else upgrade_loop rest t)"

text \<open>
  The body of \<open>if intermediates == ""\<close> in \<open>handleCSI\<close>: the \<open>switch\<close> on the final byte.
  Every case converts the parameters first, with its own default. The converted vector
  is as long as \<open>params\<close>, which is not empty, so \<open>nParams[0]\<close> is in range; in the
  \<open>'H'\<close> case \<open>nParams[1]\<close> is in range after the \<open>append\<close>.
\<close>

definition csiPlain :: "gostring list \<Rightarrow> gostring \<Rightarrow> byte \<Rightarrow> RichTextTerminal \<Rightarrow> fault + RichTextTerminal" where
  "csiPlain params intermediates final t =
     (if final = 0x43 then
        (case convertParamsWithDefault 1 params of Inl e \<Rightarrow> Inl e
         | Inr nParams \<Rightarrow> onScreenF (right (nParams ! 0)) t)
      else if final = 0x44 then
        (case convertParamsWithDefault 1 params of Inl e \<Rightarrow> Inl e
         | Inr nParams \<Rightarrow> onScreenF (left (nParams ! 0)) t)
      else if final = 0x45 then
        (case convertParamsWithDefault 1 params of Inl e \<Rightarrow> Inl e
         | Inr nParams \<Rightarrow> Inr (onScreen (newlines (nParams ! 0)) t))
      else if final = 0x4A \<or> final = 0x4B then
        (case convertParamsWithDefault 0 params of Inl e \<Rightarrow> Inl e
         | Inr nParams \<Rightarrow>
             if nParams ! 0 = 0 then onScreenF clearRight t
             else if nParams ! 0 = 1 then onScreenF clearLeft t
             else if nParams ! 0 = 2 then Inr (onScreen clear t)
             else Inr t)
      else if final = 0x47 then
        (case convertParamsWithDefault 1 params of Inl e \<Rightarrow> Inl e
         | Inr nParams \<Rightarrow> onScreenF (setPos 0 (wrap64 (nParams ! 0 - 1))) t)
      else if final = 0x48 then
        (case convertParamsWithDefault 1 params of Inl e \<Rightarrow> Inl e
         | Inr nParams \<Rightarrow>
             (let nParams' = (if length params = 1 then nParams @ [1] else nParams) in
              onScreenF (setPos (wrap64 (nParams' ! 0 - 1)) (wrap64 (nParams' ! 1 - 1))) t))
      else if final = 0x68 then
        (case convertParamsWithDefault 0 params of Inl e \<Rightarrow> Inl e
         | Inr nParams \<Rightarrow>
             if intermediates = [0x3F] then upgrade_loop nParams t else Inr t)
      else if final = 0x6D then
        (case convertParamsWithDefault 0 params of Inl e \<Rightarrow> Inl e
         | Inr nParams \<Rightarrow> onScreenF (sgr_loop nParams) t)
      else Inr t)"

definition handleCSI :: "gostring list \<Rightarrow> gostring \<Rightarrow> byte \<Rightarrow> RichTextTerminal \<Rightarrow> fault + RichTextTerminal" where
  "handleCSI params intermediates final t =
     (if length params = 0 then Inl NilParamSlice
      else
        (case (if intermediates = [] then csiPlain params intermediates final t else Inr t) of
           Inl e \<Rightarrow> Inl e
         | Inr t1 \<Rightarrow>
             if intermediates = [0x21] then
               (if final = 0x70 then Inr (onScreen resetAttributes t1) else Inr t1)
             else Inr t1))"

definition handleDSC :: "gostring list \<Rightarrow> gostring \<Rightarrow> byte \<Rightarrow> RichTextTerminal \<Rightarrow> fault + RichTextTerminal" where
  "handleDSC params intermediates final t = Inr t"

definition handleOSC :: "gostring list \<Rightarrow> RichTextTerminal \<Rightarrow> fault + RichTextTerminal" where
  "handleOSC params t =
     (if length params = 0 then Inr t
      else if params ! 0 = [0x38] then
        (if length params < 3 then Inr (onScreen resetURI t)
         else Inr (onScreen (setURI (params ! 2)) t))
      else Inr t)"

text \<open>
  The six callbacks of the \<open>dispatchHandler\<close> interface as events, and the terminal's
  reaction to one event and to a sequence of them.
\<close>

datatype event =
    PrintRune rune
  | HandleCtrl byte
  | HandleEsc gostring byte
  | HandleOSC "gostring list"
  | HandleCSI "gostring list" gostring byte
  | HandleDSC "gostring list" gostring byte

fun dispatch :: "event \<Rightarrow> RichTextTerminal \<Rightarrow> fault + RichTextTerminal" where
  "dispatch (PrintRune r) t = printRune r t"
| "dispatch (HandleCtrl c) t = handleCtrl c t"
| "dispatch (HandleEsc intermediates final) t = handleEsc intermediates final t"
| "dispatch (HandleOSC params) t = handleOSC params t"
| "dispatch (HandleCSI params intermediates final) t = handleCSI params intermediates final t"
| "dispatch (HandleDSC params intermediates final) t = handleDSC params intermediates final t"

fun dispatchAll :: "event list \<Rightarrow> RichTextTerminal \<Rightarrow> fault + RichTextTerminal" where
  "dispatchAll [] t = Inr t"
| "dispatchAll (e # es) t = (case dispatch e t of Inl f \<Rightarrow> Inl f | Inr t' \<Rightarrow> dispatchAll es t')"

text \<open>
  \<open>New\<close> with or without the option \<open>WithUpgradeHook\<close>: the parser starts in
  \<open>parseOutput\<close> with empty scratch buffers, the screen is \<open>newScreen()\<close>.
\<close>

definition newParser :: parser where
  "newParser = \<lparr>state = Some ParseOutput, partialParam = [], partialParams = [],
     partialIntermediates = []\<rparr>"

definition New :: "bool \<Rightarrow> RichTextTerminal" where
  "New withHook = \<lparr>parser = newParser, screen = newScreen, upgraded = False,
     upgradeHook = withHook, hookCalls = 0\<rparr>"

section \<open>The renderer (terminal/render.go)\<close>

text \<open>
  \<open>HTMLColorCode\<close>, the one method of \<open>Color\<close>, is not among the sources: the renderer
  takes it as the parameter \<open>colorCode\<close>.
\<close>

text \<open>
  \<open>a == a2 || *a == *a2\<close> on two pointers: equal pointers, \<open>nil\<close> included, need no
  dereference; otherwise both are dereferenced, and a \<open>nil\<close> one panics.
\<close>

definition Equals :: "styleAttributes list \<Rightarrow> addr option \<Rightarrow> addr option \<Rightarrow> fault + bool" where
  "Equals h a a2 =
     (if a = a2 then Inr True
      else (case a of
              None \<Rightarrow> Inl NilDereference
            | Some x \<Rightarrow> (case a2 of None \<Rightarrow> Inl NilDereference | Some y \<Rightarrow> Inr (h ! x = h ! y))))"

definition openTags :: "(Color \<Rightarrow> gostring) \<Rightarrow> styleAttributes \<Rightarrow> gostring" where
  \<open>openTags colorCode attr =
     (if uri attr \<noteq> [] then str ''<a href="'' @ EscapeString (uri attr) @ str ''">'' else [])
     @ (if \<not> Empty attr then
          str ''<span style="''
          @ (if hasStyle attr Bold then str ''font-weight:bold;'' else [])
          @ (if hasStyle attr Italic then str ''font-style:italic;'' else [])
          @ (if hasStyle attr Underline then str ''text-decoration:underline;'' else [])
          @ (if hasStyle attr Hidden then str ''visibility:hidden;'' else [])
          @ (case fg attr of None \<Rightarrow> [] | Some c \<Rightarrow> str ''color:'' @ colorCode c @ str '';'')
          @ (case bg attr of None \<Rightarrow> [] | Some c \<Rightarrow> str ''background-color:'' @ colorCode c @ str '';'')
          @ str ''">''
        else [])\<close>

definition closeTags :: "styleAttributes \<Rightarrow> gostring" where
  "closeTags attr =
     (if \<not> Empty attr then str ''</span>'' else [])
     @ (if uri attr \<noteq> [] then str ''</a>'' else [])"

text \<open>
  The loop of \<open>renderLine\<close> over the nodes, with the builder \<open>raw\<close> and the pointer
  \<open>prevAttr\<close> as they stand, and the final \<open>closeTags(prevAttr)\<close>. \<open>openTags\<close> and
  \<open>closeTags\<close> read the fields of the bundle their pointer refers to: a \<open>nil\<close> pointer
  panics.
\<close>

fun renderLine_loop ::
    "(Color \<Rightarrow> gostring) \<Rightarrow> styleAttributes list \<Rightarrow> addr option \<Rightarrow> gostring \<Rightarrow> node list \<Rightarrow>
     fault + gostring" where
  "renderLine_loop colorCode h prevAttr raw [] =
     (case prevAttr of
        None \<Rightarrow> Inl NilDereference
      | Some p \<Rightarrow> Inr (raw @ closeTags (h ! p)))"
| "renderLine_loop colorCode h prevAttr raw (n # ns) =
     (case Equals h (attrs n) prevAttr of
        Inl f \<Rightarrow> Inl f
      | Inr eq \<Rightarrow>
          if \<not> eq then
            (case prevAttr of
               None \<Rightarrow> Inl NilDereference
             | Some p \<Rightarrow>
                 (case attrs n of
                    None \<Rightarrow> Inl NilDereference
                  | Some a \<Rightarrow>
                      renderLine_loop colorCode h (attrs n)
                        (raw @ closeTags (h ! p) @ openTags colorCode (h ! a)
                             @ EscapeString (runeString (rune n))) ns))
          else
            renderLine_loop colorCode h prevAttr (raw @ EscapeString (runeString (rune n))) ns)"

text \<open>\<open>prevAttr := &styleAttributes{}\<close> is a fresh cell of the store.\<close>

definition renderLine ::
    "(Color \<Rightarrow> gostring) \<Rightarrow> styleAttributes list \<Rightarrow> node list \<Rightarrow> fault + gostring" where
  "renderLine colorCode h line =
     renderLine_loop colorCode (h @ [zeroAttributes]) (Some (length h)) [] line"

text \<open>The loop of \<open>Lines\<close> over the lines, with the slice \<open>ret\<close> as it stands.\<close>

fun Lines_loop ::
    "(Color \<Rightarrow> gostring) \<Rightarrow> styleAttributes list \<Rightarrow> gostring list \<Rightarrow> node list list \<Rightarrow>
     fault + gostring list" where
  "Lines_loop colorCode h ret [] = Inr ret"
| "Lines_loop colorCode h ret (line # rest) =
     (case renderLine colorCode h line of
        Inl f \<Rightarrow> Inl f
      | Inr r \<Rightarrow> Lines_loop colorCode h (ret @ [r]) rest)"

definition Lines :: "(Color \<Rightarrow> gostring) \<Rightarrow> screen \<Rightarrow> fault + gostring list" where
  "Lines colorCode s = Lines_loop colorCode (heap s) [] (scrollback s @ [activeLine s])"

section \<open>The parser (terminal/parser.go)\<close>

definition ctrlCode :: "byte \<Rightarrow> bool" where
  "ctrlCode c = (c \<le> 0x1F \<and> \<not> (c = 0x18 \<or> c = 0x1A \<or> c = 0x1B))"

definition terminatingCtrlCode :: "byte \<Rightarrow> bool" where
  "terminatingCtrlCode c = (c = 0x18 \<or> c = 0x1A)"

definition graphicalCode :: "byte \<Rightarrow> bool" where
  "graphicalCode c = (0x20 \<le> c)"

definition clearParser :: "parser \<Rightarrow> parser" where
  "clearParser p = p\<lparr>partialParams := [], partialParam := [], partialIntermediates := []\<rparr>"

definition collectIntermediate :: "byte \<Rightarrow> parser \<Rightarrow> parser" where
  "collectIntermediate c p = p\<lparr>partialIntermediates := partialIntermediates p @ [c]\<rparr>"

definition collectParam :: "byte \<Rightarrow> parser \<Rightarrow> parser" where
  "collectParam c p =
     (if c = 0x3B then p\<lparr>partialParams := partialParams p @ [partialParam p], partialParam := []\<rparr>
      else p\<lparr>partialParam := partialParam p @ [c]\<rparr>)"

definition intermediates :: "parser \<Rightarrow> gostring" where
  "intermediates p = partialIntermediates p"

definition params :: "parser \<Rightarrow> gostring list" where
  "params p = partialParams p @ [partialParam p]"

text \<open>A method of the embedded parser, called on the terminal.\<close>

definition onParser :: "(parser \<Rightarrow> parser) \<Rightarrow> RichTextTerminal \<Rightarrow> RichTextTerminal" where
  "onParser f t = t\<lparr>parser := f (parser t)\<rparr>"

text \<open>
  The errors a state function or \<open>Continue\<close> returns; \<open>None\<close> is \<open>nil\<close>. The reader is a
  finite list of bytes: reading past its end is the read error (\<open>io.EOF\<close>). A state
  function returns the next state, the error, the bytes left and the terminal; a handler
  that panics ends everything.
\<close>

datatype perr = ParserPaused | ReadError | UndefinedTransition byte pstate

type_synonym presult = "fault + (pstate option \<times> perr option \<times> byte list \<times> RichTextTerminal)"

text \<open>What a state function returns after a callback of the handler has run.\<close>

definition dispatched ::
    "fault + RichTextTerminal \<Rightarrow> pstate \<Rightarrow> perr option \<Rightarrow> byte list \<Rightarrow> presult" where
  "dispatched r st err rest = (case r of Inl f \<Rightarrow> Inl f | Inr t \<Rightarrow> Inr (Some st, err, rest, t))"

lemma ReadRune_size: "1 \<le> snd (ReadRune p)"
  by (simp add: ReadRune_def DecodeRune_def Let_def)

text \<open>
  \<open>parseOutput\<close>. \<open>ReadRune\<close> follows an \<open>UnreadByte\<close>, so a byte is there and it does
  not fail.
\<close>

function parseOutput :: "byte list \<Rightarrow> RichTextTerminal \<Rightarrow> presult" where
  "parseOutput [] t = Inr (None, Some ReadError, [], t)"
| "parseOutput (c # cs) t =
     (if c = 0x7F then dispatched (handleCtrl c t) ParseOutput (Some ParserPaused) cs
      else if graphicalCode c then
        (case printRune (fst (ReadRune (c # cs))) t of
           Inl f \<Rightarrow> Inl f
         | Inr t' \<Rightarrow> parseOutput (drop (snd (ReadRune (c # cs))) (c # cs)) t')
      else Inr (Some ParseOutput, Some ParserPaused, c # cs, t))"
  by pat_completeness auto
termination
proof (relation "measure (\<lambda>(inp, t). length inp)")
  show "wf (measure (\<lambda>(inp, t). length inp))"
    by simp
next
  fix c :: byte and cs :: "byte list" and t x2 :: RichTextTerminal
  have "1 \<le> snd (ReadRune (c # cs))"
    by (rule ReadRune_size)
  then show "((drop (snd (ReadRune (c # cs))) (c # cs), x2), (c # cs, t))
      \<in> measure (\<lambda>(inp, t). length inp)"
    by simp
qed

fun parseEscape :: "byte list \<Rightarrow> RichTextTerminal \<Rightarrow> presult" where
  "parseEscape [] t = Inr (None, Some ReadError, [], t)"
| "parseEscape (c # cs) t =
     (let low = c AND NOT 0x80 in
      if c = 0x7F then Inr (Some ParseEscape, None, cs, t)
      else if 0x20 \<le> c \<and> c \<le> 0x2F then
        Inr (Some ParseEscapeIntermediate, None, cs,
             onParser (collectIntermediate c) (onParser clearParser t))
      else if low = 0x50 then Inr (Some ParseDCSEntry, None, cs, t)
      else if low = 0x5B then Inr (Some ParseCSIEntry, None, cs, t)
      else if low = 0x5D then Inr (Some ParseOSCString, None, cs, t)
      else if low = 0x58 \<or> low = 0x5E \<or> low = 0x5F then Inr (Some ParseIgnoreAll, None, cs, t)
      else if low = 0x5C then Inr (Some ParseOutput, None, cs, t)
      else if 0x40 \<le> c \<and> c \<le> 0x5F then
        dispatched (handleCtrl (c + 0x40) t) ParseOutput (Some ParserPaused) cs
      else if 0x30 \<le> c \<and> c \<le> 0x7E then
        dispatched (handleEsc [] c t) ParseOutput (Some ParserPaused) cs
      else Inr (Some ParseEscape, None, c # cs, t))"

fun parseEscapeIntermediate :: "byte list \<Rightarrow> RichTextTerminal \<Rightarrow> presult" where
  "parseEscapeIntermediate [] t = Inr (None, Some ReadError, [], t)"
| "parseEscapeIntermediate (c # cs) t =
     (if c = 0x7F then Inr (Some ParseEscapeIntermediate, None, cs, t)
      else if 0x20 \<le> c \<and> c \<le> 0x2F then
        Inr (Some ParseEscapeIntermediate, None, cs, onParser (collectIntermediate c) t)
      else if 0x30 \<le> c \<and> c \<le> 0x7E then
        dispatched (handleEsc (intermediates (parser t)) c t) ParseOutput (Some ParserPaused) cs
      else Inr (Some ParseEscapeIntermediate, None, c # cs, t))"

fun parseOSCString_loop :: "byte list \<Rightarrow> RichTextTerminal \<Rightarrow> presult" where
  "parseOSCString_loop [] t = Inr (None, Some ReadError, [], t)"
| "parseOSCString_loop (c # cs) t =
     (if c = 0x07 then
        dispatched (handleOSC (params (parser t)) t) ParseOutput (Some ParserPaused) cs
      else if ctrlCode c then parseOSCString_loop cs t
      else if graphicalCode c then parseOSCString_loop cs (onParser (collectParam c) t)
      else if c = 0x1B then
        dispatched (handleOSC (params (parser t)) t) ParseEscape (Some ParserPaused) cs
      else
        dispatched (handleOSC (params (parser t)) t) ParseOSCString (Some ParserPaused) (c # cs))"

definition parseOSCString :: "byte list \<Rightarrow> RichTextTerminal \<Rightarrow> presult" where
  "parseOSCString inp t = parseOSCString_loop inp (onParser clearParser t)"

definition paramByte :: "byte \<Rightarrow> bool" where
  "paramByte c = (0x30 \<le> c \<and> c \<le> 0x39 \<or> c = 0x3B)"

fun parseCSIEntry_read :: "byte list \<Rightarrow> RichTextTerminal \<Rightarrow> presult" where
  "parseCSIEntry_read [] t = Inr (None, Some ReadError, [], t)"
| "parseCSIEntry_read (c # cs) t =
     (if c = 0x7F then Inr (Some ParseCSIEntry, None, cs, t)
      else if 0x20 \<le> c \<and> c \<le> 0x2F then
        Inr (Some ParseCSIIntermediate, None, cs, onParser (collectIntermediate c) t)
      else if paramByte c then Inr (Some ParseCSIParam, None, cs, onParser (collectParam c) t)
      else if 0x3C \<le> c \<and> c \<le> 0x3F then
        Inr (Some ParseCSIParam, None, cs, onParser (collectIntermediate c) t)
      else if c = 0x3A then Inr (Some ParseCSIIgnore, None, cs, t)
      else if 0x40 \<le> c \<and> c \<le> 0x7E then
        dispatched (handleCSI [[]] [] c t) ParseOutput (Some ParserPaused) cs
      else Inr (Some ParseCSIEntry, None, c # cs, t))"

definition parseCSIEntry :: "byte list \<Rightarrow> RichTextTerminal \<Rightarrow> presult" where
  "parseCSIEntry inp t = parseCSIEntry_read inp (onParser clearParser t)"

fun parseCSIParam :: "byte list \<Rightarrow> RichTextTerminal \<Rightarrow> presult" where
  "parseCSIParam [] t = Inr (None, Some ReadError, [], t)"
| "parseCSIParam (c # cs) t =
     (if c = 0x7F then parseCSIParam cs t
      else if 0x20 \<le> c \<and> c \<le> 0x2F then
        Inr (Some ParseCSIIntermediate, None, cs, onParser (collectIntermediate c) t)
      else if paramByte c then parseCSIParam cs (onParser (collectParam c) t)
      else if c = 0x3A \<or> 0x3C \<le> c \<and> c \<le> 0x3F then Inr (Some ParseCSIIgnore, None, cs, t)
      else if 0x40 \<le> c \<and> c \<le> 0x7E then
        dispatched (handleCSI (params (parser t)) (intermediates (parser t)) c t)
          ParseOutput (Some ParserPaused) cs
      else Inr (Some ParseCSIParam, None, c # cs, t))"

fun parseCSIIntermediate :: "byte list \<Rightarrow> RichTextTerminal \<Rightarrow> presult" where
  "parseCSIIntermediate [] t = Inr (None, Some ReadError, [], t)"
| "parseCSIIntermediate (c # cs) t =
     (if c = 0x7F then parseCSIIntermediate cs t
      else if 0x20 \<le> c \<and> c \<le> 0x2F then
        parseCSIIntermediate cs (onParser (collectIntermediate c) t)
      else if 0x30 \<le> c \<and> c \<le> 0x3F then Inr (Some ParseCSIIgnore, None, cs, t)
      else if 0x40 \<le> c \<and> c \<le> 0x7E then
        dispatched (handleCSI (params (parser t)) (intermediates (parser t)) c t)
          ParseOutput (Some ParserPaused) cs
      else Inr (Some ParseCSIIntermediate, None, c # cs, t))"

fun parseCSIIgnore :: "byte list \<Rightarrow> RichTextTerminal \<Rightarrow> presult" where
  "parseCSIIgnore [] t = Inr (None, Some ReadError, [], t)"
| "parseCSIIgnore (c # cs) t =
     (let low = c AND NOT 0x80 in
      if 0x20 \<le> low \<and> low \<le> 0x3F then parseCSIIgnore cs t
      else if low = 0x7F then parseCSIIgnore cs t
      else if 0x40 \<le> low \<and> low \<le> 0x7E then Inr (Some ParseOutput, None, cs, t)
      else Inr (Some ParseCSIIgnore, None, c # cs, t))"

fun parseDCSEntry_read :: "byte list \<Rightarrow> RichTextTerminal \<Rightarrow> presult" where
  "parseDCSEntry_read [] t = Inr (None, Some ReadError, [], t)"
| "parseDCSEntry_read (c # cs) t =
     (if c = 0x7F then Inr (Some ParseDCSEntry, None, cs, t)
      else if ctrlCode c then Inr (Some ParseDCSEntry, None, cs, t)
      else if 0x20 \<le> c \<and> c \<le> 0x2F then
        Inr (Some ParseDCSIntermediate, None, cs, onParser (collectIntermediate c) t)
      else if paramByte c then Inr (Some ParseDCSParam, None, cs, onParser (collectParam c) t)
      else if 0x3C \<le> c \<and> c \<le> 0x3F then
        Inr (Some ParseDCSParam, None, cs, onParser (collectIntermediate c) t)
      else if c = 0x3A then Inr (Some ParseIgnoreAll, None, cs, t)
      else if 0x40 \<le> c \<and> c \<le> 0x7E then Inr (Some ParseDCSPassthrough, None, c # cs, t)
      else Inr (Some ParseDCSEntry, None, c # cs, t))"

definition parseDCSEntry :: "byte list \<Rightarrow> RichTextTerminal \<Rightarrow> presult" where
  "parseDCSEntry inp t = parseDCSEntry_read inp (onParser clearParser t)"

fun parseDCSIntermediate :: "byte list \<Rightarrow> RichTextTerminal \<Rightarrow> presult" where
  "parseDCSIntermediate [] t = Inr (None, Some ReadError, [], t)"
| "parseDCSIntermediate (c # cs) t =
     (if c = 0x7F then parseDCSIntermediate cs t
      else if ctrlCode c then parseDCSIntermediate cs t
      else if 0x20 \<le> c \<and> c \<le> 0x2F then
        parseDCSIntermediate cs (onParser (collectIntermediate c) t)
      else if 0x30 \<le> c \<and> c \<le> 0x3F then Inr (Some ParseIgnoreAll, None, cs, t)
      else if 0x40 \<le> c \<and> c \<le> 0x7E then Inr (Some ParseDCSPassthrough, None, c # cs, t)
      else Inr (Some ParseEscapeIntermediate, None, c # cs, t))"

fun parseDCSParam :: "byte list \<Rightarrow> RichTextTerminal \<Rightarrow> presult" where
  "parseDCSParam [] t = Inr (None, Some ReadError, [], t)"
| "parseDCSParam (c # cs) t =
     (if c = 0x7F then parseDCSParam cs t
      else if ctrlCode c then parseDCSParam cs t
      else if 0x20 \<le> c \<and> c \<le> 0x2F then
        Inr (Some ParseDCSIntermediate, None, cs, onParser (collectIntermediate c) t)
      else if paramByte c then parseDCSParam cs (onParser (collectParam c) t)
      else if c = 0x3A \<or> 0x3C \<le> c \<and> c \<le> 0x3F then Inr (Some ParseIgnoreAll, None, cs, t)
      else if 0x40 \<le> c \<and> c \<le> 0x7E then Inr (Some ParseDCSPassthrough, None, c # cs, t)
      else Inr (Some ParseDCSParam, None, c # cs, t))"

fun parseDCSPassthrough :: "byte list \<Rightarrow> RichTextTerminal \<Rightarrow> presult" where
  "parseDCSPassthrough [] t = Inr (None, Some ReadError, [], t)"
| "parseDCSPassthrough (c # cs) t =
     dispatched (handleDSC (params (parser t)) (intermediates (parser t)) c t)
       ParseIgnoreAll None cs"

fun parseIgnoreAll :: "byte list \<Rightarrow> RichTextTerminal \<Rightarrow> presult" where
  "parseIgnoreAll [] t = Inr (None, Some ReadError, [], t)"
| "parseIgnoreAll (c # cs) t =
     (if ctrlCode c then parseIgnoreAll cs t
      else if graphicalCode c then parseIgnoreAll cs t
      else Inr (Some ParseIgnoreAll, None, c # cs, t))"

text \<open>The call \<open>p.state(p)\<close> of a state by its tag.\<close>

fun runState :: "pstate \<Rightarrow> byte list \<Rightarrow> RichTextTerminal \<Rightarrow> presult" where
  "runState ParseOutput = parseOutput"
| "runState ParseEscape = parseEscape"
| "runState ParseEscapeIntermediate = parseEscapeIntermediate"
| "runState ParseOSCString = parseOSCString"
| "runState ParseCSIEntry = parseCSIEntry"
| "runState ParseCSIParam = parseCSIParam"
| "runState ParseCSIIntermediate = parseCSIIntermediate"
| "runState ParseCSIIgnore = parseCSIIgnore"
| "runState ParseDCSEntry = parseDCSEntry"
| "runState ParseDCSIntermediate = parseDCSIntermediate"
| "runState ParseDCSParam = parseDCSParam"
| "runState ParseDCSPassthrough = parseDCSPassthrough"
| "runState ParseIgnoreAll = parseIgnoreAll"

text \<open>
  The \<open>switch\<close> at the head of the loop of \<open>Continue\<close>, on the byte \<open>c\<close> just read
  (\<open>cs\<close> are the bytes after it): it panics, or returns from \<open>Continue\<close> with an error
  (\<open>Inl\<close>), or goes on to the state function (\<open>Inr\<close>).
\<close>

definition commonTransitions ::
    "pstate option \<Rightarrow> byte \<Rightarrow> byte list \<Rightarrow> RichTextTerminal \<Rightarrow>
     fault + ((perr option \<times> byte list \<times> RichTextTerminal) + (byte list \<times> RichTextTerminal))" where
  "commonTransitions lastState c cs t =
     (if ctrlCode c then
        (case handleCtrl c t of Inl f \<Rightarrow> Inl f | Inr t' \<Rightarrow> Inr (Inr (cs, t')))
      else if terminatingCtrlCode c then
        (case handleCtrl c t of Inl f \<Rightarrow> Inl f | Inr t' \<Rightarrow> Inr (Inl (None, cs, t')))
      else if c = 0x1B then Inr (Inr (cs, onParser (\<lambda>p. p\<lparr>state := Some ParseEscape\<rparr>) t))
      else if 0x80 \<le> c \<and> c < 0xC0 then Inr (Inr (cs, t))
      else if state (parser t) = lastState then
        Inr (Inl (Some (UndefinedTransition c (the (state (parser t)))), cs, t))
      else Inr (Inr (c # cs, t)))"

text \<open>
  The loop of \<open>Continue\<close>, from its head, with \<open>lastState\<close> as it stands. It is a
  partial function: \<open>None\<close> would be a loop that never ends.
\<close>

partial_function (option) Continue_loop ::
    "pstate option \<Rightarrow> byte list \<Rightarrow> RichTextTerminal \<Rightarrow>
     (fault + (perr option \<times> byte list \<times> RichTextTerminal)) option" where
  "Continue_loop lastState inp t =
     (case state (parser t) of
        None \<Rightarrow> Some (Inr (None, inp, t))
      | Some st \<Rightarrow>
          (case inp of
             [] \<Rightarrow> Some (Inr (Some ReadError, [], t))
           | c # cs \<Rightarrow>
               (case commonTransitions lastState c cs t of
                  Inl f \<Rightarrow> Some (Inl f)
                | Inr (Inl returned) \<Rightarrow> Some (Inr returned)
                | Inr (Inr (inp1, t1)) \<Rightarrow>
                    (case runState (the (state (parser t1))) inp1 t1 of
                       Inl f \<Rightarrow> Some (Inl f)
                     | Inr (st2, err, inp2, t2) \<Rightarrow>
                         (let t3 = onParser (\<lambda>p. p\<lparr>state := st2\<rparr>) t2 in
                          if st2 \<noteq> None \<and> err = None then
                            Continue_loop (state (parser t1)) inp2 t3
                          else if err = Some ParserPaused then Some (Inr (None, inp2, t3))
                          else Some (Inr (err, inp2, t3)))))))"

declare Continue_loop.simps [code]

definition Continue ::
    "byte list \<Rightarrow> RichTextTerminal \<Rightarrow> (fault + (perr option \<times> byte list \<times> RichTextTerminal)) option" where
  "Continue inp t = Continue_loop None inp t"

text \<open>
  \<open>Run\<close>, with a context that is never cancelled: the result is the terminal \<open>Run\<close>
  leaves behind and the bytes it has not read.
\<close>

partial_function (option) Run ::
    "byte list \<Rightarrow> RichTextTerminal \<Rightarrow> (fault + (byte list \<times> RichTextTerminal)) option" where
  "Run inp t =
     (if upgraded t then Some (Inr (inp, t))
      else
        (case Continue inp t of
           None \<Rightarrow> None
         | Some (Inl f) \<Rightarrow> Some (Inl f)
         | Some (Inr (err, inp', t')) \<Rightarrow>
             if err = None then Run inp' t' else Some (Inr (inp', t'))))"

declare Run.simps [code]

section \<open>Definitions for the statements\<close>

text \<open>The action \<open>collectParam\<close> on each byte of a sequence in turn.\<close>

definition collectParams :: "byte list \<Rightarrow> parser \<Rightarrow> parser" where
  "collectParams bs p = foldl (\<lambda>p c. collectParam c p) p bs"

text \<open>
  The spec's reading of a parameter string, for comparison with the parser: the bytes
  split at every semicolon, so that the empty input is one empty parameter and a trailing
  semicolon ends in an empty parameter.
\<close>

fun specSplitParams :: "gostring \<Rightarrow> gostring list" where
  "specSplitParams [] = [[]]"
| "specSplitParams (c # cs) =
     (if c = 0x3B then [] # specSplitParams cs
      else (case specSplitParams cs of [] \<Rightarrow> [[c]] | x # xs \<Rightarrow> (c # x) # xs))"

text \<open>The bundle the screen's pointer \<open>activeAttributes\<close> refers to.\<close>

definition activeBundle :: "screen \<Rightarrow> styleAttributes" where
  "activeBundle s = heap s ! activeAttributes s"

text \<open>The final bytes \<open>handleCSI\<close> has a case for, under empty intermediates.\<close>

definition csiFinals :: "byte list" where
  "csiFinals = [0x43, 0x44, 0x45, 0x4A, 0x4B, 0x47, 0x48, 0x68, 0x6D]"

text \<open>
  The terminal \<open>t\<close> on a runtime whose coming allocations for the active line have
  the spare cells \<open>g\<close>.
\<close>

definition withGrowth :: "nat list \<Rightarrow> RichTextTerminal \<Rightarrow> RichTextTerminal" where
  "withGrowth g t = t\<lparr>screen := (screen t)\<lparr>growth := g\<rparr>\<rparr>"

text \<open>The nodes a screen holds, in the active line and in the scrollback.\<close>

definition nodes :: "screen \<Rightarrow> node set" where
  "nodes s = set (activeLine s) \<union> \<Union> (set ` set (scrollback s))"

text \<open>The nodes and the spare cells of the active line's array.\<close>

definition cells :: "screen \<Rightarrow> node set" where
  "cells s = nodes s \<union> set (spare s)"

text \<open>Every pointer of the screen that is not \<open>nil\<close> refers to an allocated bundle.\<close>

definition wellFormed :: "screen \<Rightarrow> bool" where
  "wellFormed s =
     (activeAttributes s < length (heap s)
      \<and> (\<forall>n\<in>cells s. \<forall>a. attrs n = Some a \<longrightarrow> a < length (heap s)))"

text \<open>Both the Superscript and the Subscript flag are set.\<close>

definition superAndSub :: "styleAttributes \<Rightarrow> bool" where
  "superAndSub a = (hasStyle a Superscript \<and> hasStyle a Subscript)"

text \<open>
  What every operation of the screen keeps, from the screen before to the screen after:
  the store only grows at its end, pointers stay valid, and the active bundle does not
  come to hold both flags.
\<close>

definition keeps :: "screen \<Rightarrow> screen \<Rightarrow> bool" where
  "keeps s s' =
     (prefix (heap s) (heap s') \<and> (wellFormed s \<longrightarrow> wellFormed s')
      \<and> (superAndSub (activeBundle s') \<longrightarrow> superAndSub (activeBundle s)))"

text \<open>
  From \<open>s\<close> to \<open>s'\<close> the bundle \<open>v\<close> is allocated in a fresh cell, every older cell
  is left as it was, and \<open>activeAttributes\<close> points to the fresh cell.
\<close>

definition installs :: "screen \<Rightarrow> styleAttributes \<Rightarrow> screen \<Rightarrow> bool" where
  "installs s v s' = (heap s' = heap s @ [v] \<and> activeAttributes s' = length (heap s))"

text \<open>The upgrade flag, the hook and the count of its calls are the same in both terminals.\<close>

definition sameHook :: "RichTextTerminal \<Rightarrow> RichTextTerminal \<Rightarrow> bool" where
  "sameHook t t' =
     (upgraded t' = upgraded t \<and> hookCalls t' = hookCalls t \<and> upgradeHook t' = upgradeHook t)"

section \<open>Checks of the model on small inputs\<close>

lemma newScreen_pos: "pos newScreen = 0"
  by (simp add: newScreen_def)

lemma Atoi_examples:
  "Atoi (str ''1049'') = Some 1049 \<and> Atoi (str ''-5'') = Some (- 5) \<and> Atoi [] = None
   \<and> Atoi (str ''9223372036854775807'') = Some 9223372036854775807
   \<and> Atoi (str ''9223372036854775808'') = None \<and> Atoi (str ''4x'') = None"
  by (simp add: Atoi_def str_def isDigit_def)

lemma runeString_examples:
  "runeString 0x41 = [0x41] \<and> runeString 0xE9 = [0xC3, 0xA9] \<and> runeString 0x20AC = [0xE2, 0x82, 0xAC]
   \<and> runeString 0x1F600 = [0xF0, 0x9F, 0x98, 0x80]"
  by (simp add: runeString_def)

lemma ReadRune_examples:
  "ReadRune [0x41, 0x42] = (0x41, 1) \<and> ReadRune [0xC3, 0xA9] = (0xE9, 2)
   \<and> ReadRune [0xE2, 0x82, 0xAC, 0x41] = (0x20AC, 3) \<and> ReadRune [0xF0, 0x9F, 0x98, 0x80] = (0x1F600, 4)
   \<and> ReadRune [0xE2, 0x82] = (0xFFFD, 1) \<and> ReadRune [0x85] = (0xFFFD, 1)
   \<and> ReadRune [0xED, 0xA0, 0x80] = (0xFFFD, 1)"
  by (simp add: ReadRune_def DecodeRune_def inRange_def cont_def)


text \<open>
  The parser and the handlers together, on byte streams: plain text and a newline; a
  direct foreground color; \<open>ABCDE\<close>, cursor back by two, erase to the right; a cursor
  position without parameters after some text.
\<close>

lemma Run_plain_text:
  "(case Run (str ''Hello'' @ [0x0A]) (New False) of
      Some (Inr (rest, t)) \<Rightarrow>
        map (map rune) (scrollback (screen t)) = [[0x48, 0x65, 0x6C, 0x6C, 0x6F]]
        \<and> activeLine (screen t) = [] \<and> pos (screen t) = 0
    | _ \<Rightarrow> False)"
  by code_simp

lemma Run_direct_color:
  "(case Run (0x1B # str ''[38;2;10;20;30mX'') (New False) of
      Some (Inr (rest, t)) \<Rightarrow>
        fg (activeBundle (screen t)) = Some (RGBColor 10 20 30)
        \<and> activeLine (screen t) = [\<lparr>rune = 0x58, attrs = Some (activeAttributes (screen t))\<rparr>]
    | _ \<Rightarrow> False)"
  by code_simp

lemma Run_erase_right:
  "(case Run (str ''ABCDE'' @ 0x1B # str ''[2D'' @ 0x1B # str ''[0K'') (New False) of
      Some (Inr (rest, t)) \<Rightarrow>
        map rune (activeLine (screen t)) = [0x41, 0x42, 0x43] \<and> pos (screen t) = 3
    | _ \<Rightarrow> False)"
  by code_simp

lemma Run_cursor_position_default:
  "(case Run (str ''AB'' @ 0x1B # str ''[H'') (New False) of
      Some (Inr (rest, t)) \<Rightarrow>
        map rune (activeLine (screen t)) = [0x41, 0x42] \<and> pos (screen t) = 0
    | _ \<Rightarrow> False)"
  by code_simp

text \<open>
  Spare cells come back into the line. On \<open>abcdefgh\<close>, cursor back by three, erase to
  the right, carriage return, cursor forward by seven, erase to the right, the last
  erase slices the line of length 5 up to 7 in an array of 8 cells: the nodes \<open>f\<close> and
  \<open>g\<close> are in the line again, after the two spaces the cursor movement wrote over \<open>a\<close>
  and \<open>b\<close>. On \<open>abc\<close>, carriage return, cursor forward by four, erase to the right, with
  arrays of 1, 2 and 4 cells for the three appends, the fourth cell of the line is the
  zero node, and rendering the line panics on its \<open>nil\<close> pointer.
\<close>

lemma Run_reslice_stale_cells:
  "(case Run (str ''abcdefgh'' @ 0x1B # str ''[3D'' @ 0x1B # str ''[K'' @ 0x0D # 0x1B # str ''[7C''
               @ 0x1B # str ''[K'')
           (withGrowth [0, 0, 1, 3] (New False)) of
      Some (Inr (rest, t)) \<Rightarrow>
        map rune (activeLine (screen t)) = [0x20, 0x20, 0x63, 0x64, 0x65, 0x66, 0x67]
        \<and> map rune (spare (screen t)) = [0x68] \<and> pos (screen t) = 7
    | _ \<Rightarrow> False)"
  by code_simp

lemma Run_reslice_zero_cell:
  "(case Run (str ''abc'' @ 0x0D # 0x1B # str ''[4C'' @ 0x1B # str ''[K'')
           (withGrowth [0, 0, 1] (New False)) of
      Some (Inr (rest, t)) \<Rightarrow>
        activeLine (screen t) ! 3 = zeroNode \<and> length (activeLine (screen t)) = 4
        \<and> Lines (\<lambda>c. []) (screen t) = Inl NilDereference
    | _ \<Rightarrow> False)"
  by code_simp

section \<open>The upgrade trigger\<close>

text \<open>
  In \<open>handleCSI\<close> the test \<open>intermediates == "?"\<close> of the \<open>'h'\<close> case stands inside the
  branch \<open>intermediates == ""\<close>, so \<open>upgrade\<close> is never reached: no dispatch, and
  so no run of the parser on any input, changes the flag \<open>upgraded\<close> or calls the hook.
\<close>

lemma sameHook_refl [simp]: "sameHook t t"
  by (simp add: sameHook_def)

lemma sameHook_trans: "sameHook t t1 \<Longrightarrow> sameHook t1 t2 \<Longrightarrow> sameHook t t2"
  by (simp add: sameHook_def)

lemma sameHook_onParser [simp]:
  "sameHook t (onParser f t') = sameHook t t'" "sameHook (onParser f t) t' = sameHook t t'"
  by (simp_all add: sameHook_def onParser_def)

lemma sameHook_onScreen [simp]: "sameHook t (onScreen f t)"
  by (simp add: sameHook_def onScreen_def)

lemma sameHook_onScreenF: "onScreenF f t = Inr t' \<Longrightarrow> sameHook t t'"
  by (auto simp: sameHook_def onScreenF_def split: sum.splits)

lemma sameHook_printRune: "printRune r t = Inr t' \<Longrightarrow> sameHook t t'"
  by (simp add: printRune_def sameHook_onScreenF)

lemma sameHook_handleCtrl: "handleCtrl c t = Inr t' \<Longrightarrow> sameHook t t'"
  by (auto simp: handleCtrl_def sameHook_onScreenF sameHook_printRune split: if_splits)

lemma sameHook_handleEsc: "handleEsc im final t = Inr t' \<Longrightarrow> sameHook t t'"
  by (auto simp: handleEsc_def sameHook_def onScreen_def split: if_splits)

lemma sameHook_handleOSC: "handleOSC ps t = Inr t' \<Longrightarrow> sameHook t t'"
  by (auto simp: handleOSC_def split: if_splits)

lemma sameHook_handleDSC: "handleDSC ps im final t = Inr t' \<Longrightarrow> sameHook t t'"
  by (auto simp: handleDSC_def)

lemma sameHook_handleCSI: "handleCSI ps im final t = Inr t' \<Longrightarrow> sameHook t t'"
  by (auto simp: handleCSI_def csiPlain_def onScreenF_def onScreen_def Let_def sameHook_def
      split: if_splits sum.splits)

lemma sameHook_dispatched:
  "dispatched r st err rest = Inr (st', err', rest', t') \<Longrightarrow> (\<And>t1. r = Inr t1 \<Longrightarrow> sameHook t t1) \<Longrightarrow>
   sameHook t t'"
  by (auto simp: dispatched_def split: sum.splits)

lemma sameHook_parseOutput: "parseOutput inp t = Inr (st, err, rest, t') \<Longrightarrow> sameHook t t'"
proof (induction inp t rule: parseOutput.induct)
  case (1 t)
  then show ?case by simp
next
  case (2 c cs t)
  show ?case
  proof (cases "c = 0x7F")
    case True
    with "2.prems" show ?thesis
      by (auto elim!: sameHook_dispatched intro: sameHook_handleCtrl)
  next
    case False
    show ?thesis
    proof (cases "graphicalCode c")
      case True
      with False "2.prems" obtain t1 where p: "printRune (fst (ReadRune (c # cs))) t = Inr t1"
        and r: "parseOutput (drop (snd (ReadRune (c # cs))) (c # cs)) t1 = Inr (st, err, rest, t')"
        by (auto split: sum.splits)
      from "2.IH" [OF False True p r] sameHook_printRune [OF p] show ?thesis
        by (rule sameHook_trans [rotated])
    next
      case g: False
      with False "2.prems" show ?thesis by simp
    qed
  qed
qed

lemma sameHook_parseEscape: "parseEscape inp t = Inr (st, err, rest, t') \<Longrightarrow> sameHook t t'"
  by (cases inp)
    (auto simp: Let_def split: if_splits elim!: sameHook_dispatched
      intro: sameHook_handleCtrl sameHook_handleEsc)

lemma sameHook_parseEscapeIntermediate:
  "parseEscapeIntermediate inp t = Inr (st, err, rest, t') \<Longrightarrow> sameHook t t'"
  by (cases inp)
    (auto split: if_splits elim!: sameHook_dispatched intro: sameHook_handleEsc)

lemma sameHook_parseOSCString_loop:
  "parseOSCString_loop inp t = Inr (st, err, rest, t') \<Longrightarrow> sameHook t t'"
  by (induction inp t rule: parseOSCString_loop.induct)
    (auto split: if_splits elim!: sameHook_dispatched intro: sameHook_handleOSC)

lemma sameHook_parseOSCString: "parseOSCString inp t = Inr (st, err, rest, t') \<Longrightarrow> sameHook t t'"
  using sameHook_parseOSCString_loop [of inp "onParser clearParser t"]
  by (simp add: parseOSCString_def)

lemma sameHook_parseCSIEntry_read:
  "parseCSIEntry_read inp t = Inr (st, err, rest, t') \<Longrightarrow> sameHook t t'"
  by (cases inp)
    (auto split: if_splits elim!: sameHook_dispatched intro: sameHook_handleCSI)

lemma sameHook_parseCSIEntry: "parseCSIEntry inp t = Inr (st, err, rest, t') \<Longrightarrow> sameHook t t'"
  using sameHook_parseCSIEntry_read [of inp "onParser clearParser t"]
  by (simp add: parseCSIEntry_def)

lemma sameHook_parseCSIParam: "parseCSIParam inp t = Inr (st, err, rest, t') \<Longrightarrow> sameHook t t'"
  by (induction inp t rule: parseCSIParam.induct)
    (auto split: if_splits elim!: sameHook_dispatched intro: sameHook_handleCSI)

lemma sameHook_parseCSIIntermediate:
  "parseCSIIntermediate inp t = Inr (st, err, rest, t') \<Longrightarrow> sameHook t t'"
  by (induction inp t rule: parseCSIIntermediate.induct)
    (auto split: if_splits elim!: sameHook_dispatched intro: sameHook_handleCSI)

lemma sameHook_parseCSIIgnore: "parseCSIIgnore inp t = Inr (st, err, rest, t') \<Longrightarrow> sameHook t t'"
  by (induction inp t rule: parseCSIIgnore.induct) (auto simp: Let_def split: if_splits)

lemma sameHook_parseDCSEntry_read:
  "parseDCSEntry_read inp t = Inr (st, err, rest, t') \<Longrightarrow> sameHook t t'"
  by (cases inp) (auto split: if_splits)

lemma sameHook_parseDCSEntry: "parseDCSEntry inp t = Inr (st, err, rest, t') \<Longrightarrow> sameHook t t'"
  using sameHook_parseDCSEntry_read [of inp "onParser clearParser t"]
  by (simp add: parseDCSEntry_def)

lemma sameHook_parseDCSIntermediate:
  "parseDCSIntermediate inp t = Inr (st, err, rest, t') \<Longrightarrow> sameHook t t'"
  by (induction inp t rule: parseDCSIntermediate.induct) (auto split: if_splits)

lemma sameHook_parseDCSParam: "parseDCSParam inp t = Inr (st, err, rest, t') \<Longrightarrow> sameHook t t'"
  by (induction inp t rule: parseDCSParam.induct) (auto split: if_splits)

lemma sameHook_parseDCSPassthrough:
  "parseDCSPassthrough inp t = Inr (st, err, rest, t') \<Longrightarrow> sameHook t t'"
  by (cases inp) (auto elim!: sameHook_dispatched intro: sameHook_handleDSC)

lemma sameHook_parseIgnoreAll: "parseIgnoreAll inp t = Inr (st, err, rest, t') \<Longrightarrow> sameHook t t'"
  by (induction inp t rule: parseIgnoreAll.induct) (auto split: if_splits)

lemma sameHook_runState: "runState s inp t = Inr (st, err, rest, t') \<Longrightarrow> sameHook t t'"
  by (cases s)
    (auto intro: sameHook_parseOutput sameHook_parseEscape sameHook_parseEscapeIntermediate
      sameHook_parseOSCString sameHook_parseCSIEntry sameHook_parseCSIParam
      sameHook_parseCSIIntermediate sameHook_parseCSIIgnore sameHook_parseDCSEntry
      sameHook_parseDCSIntermediate sameHook_parseDCSParam sameHook_parseDCSPassthrough
      sameHook_parseIgnoreAll)

lemma sameHook_commonTransitions:
  "commonTransitions lastState c cs t = Inr r \<Longrightarrow>
   (case r of Inl (err, rest, t') \<Rightarrow> sameHook t t' | Inr (rest, t') \<Rightarrow> sameHook t t')"
  by (auto simp: commonTransitions_def split: if_splits sum.splits dest: sameHook_handleCtrl)

lemma sameHook_Continue_loop:
  assumes "Continue_loop lastState inp t = Some y"
  shows "\<forall>err rest t'. y = Inr (err, rest, t') \<longrightarrow> sameHook t t'"
  using assms
proof (induction rule: Continue_loop.raw_induct [rotated 1, consumes 1])
  case (1 loop lastState inp t y)
  show ?case
  proof (intro allI impI)
    fix err rest t'
    assume y: "y = Inr (err, rest, t')"
    show "sameHook t t'"
    proof (cases "state (parser t)")
      case None
      with "1.hyps" y show ?thesis by simp
    next
      case (Some st)
      show ?thesis
      proof (cases inp)
        case Nil
        with Some "1.hyps" y show ?thesis by simp
      next
        case (Cons c cs)
        with Some "1.hyps" y obtain x where x: "commonTransitions lastState c cs t = Inr x"
          by (auto split: sum.splits)
        show ?thesis
        proof (cases x)
          case (Inl ret)
          with x Some Cons "1.hyps" y sameHook_commonTransitions [OF x] show ?thesis
            by auto
        next
          case (Inr go)
          obtain inp1 t1 where go: "go = (inp1, t1)" by (cases go)
          with Inr sameHook_commonTransitions [OF x] have a: "sameHook t t1"
            by simp
          from x Inr go Some Cons "1.hyps" y obtain st2 err2 inp2 t2 where
            rs: "runState (the (state (parser t1))) inp1 t1 = Inr (st2, err2, inp2, t2)"
            by (auto split: sum.splits)
          from sameHook_runState [OF rs] have b: "sameHook t1 t2" .
          let ?t3 = "onParser (\<lambda>p. p\<lparr>state := st2\<rparr>) t2"
          from x Inr go Some Cons "1.hyps" y rs have
            "(loop (state (parser t1)) inp2 ?t3 = Some y) \<or> t' = ?t3"
            by (auto simp: Let_def split: if_splits)
          then have "sameHook ?t3 t'"
          proof
            assume "loop (state (parser t1)) inp2 ?t3 = Some y"
            from "1.IH" [OF this] y show ?thesis by blast
          next
            assume "t' = ?t3"
            then show ?thesis by simp
          qed
          with a b show ?thesis
            by (auto simp: sameHook_def onParser_def)
        qed
      qed
    qed
  qed
qed

lemma Run_sameHook:
  assumes "Run inp t = Some y"
  shows "\<forall>rest t'. y = Inr (rest, t') \<longrightarrow> sameHook t t'"
  using assms
proof (induction rule: Run.raw_induct [rotated 1, consumes 1])
  case (1 run inp t y)
  show ?case
  proof (intro allI impI)
    fix rest t'
    assume y: "y = Inr (rest, t')"
    show "sameHook t t'"
    proof (cases "upgraded t")
      case True
      with "1.hyps" y show ?thesis by simp
    next
      case False
      with "1.hyps" y obtain err inp1 t1 where c: "Continue inp t = Some (Inr (err, inp1, t1))"
        and r: "run inp1 t1 = Some y \<or> t' = t1"
        by (auto split: option.splits sum.splits if_splits)
      from c have "sameHook t t1"
        unfolding Continue_def using sameHook_Continue_loop by blast
      moreover from r have "sameHook t1 t'"
      proof
        assume "run inp1 t1 = Some y"
        from "1.IH" [OF this] y show ?thesis by blast
      next
        assume "t' = t1"
        then show ?thesis by simp
      qed
      ultimately show ?thesis
        by (rule sameHook_trans)
    qed
  qed
qed

lemma Run_never_upgrades:
  "Run inp t = Some (Inr (rest, t')) \<Longrightarrow>
   upgraded t' = upgraded t \<and> hookCalls t' = hookCalls t"
  using Run_sameHook [of inp t "Inr (rest, t')"] by (simp add: sameHook_def)


text \<open>
  Claim C1 (a stream with CSI \<open>?h\<close> and parameter 47 or 1049 invokes the upgrade hook
  exactly once and makes \<open>Run\<close> return after that dispatch) fails on the code. On the
  bytes \<open>ESC [ ? 1 0 4 9 h x\<close>, with a hook registered, \<open>Run\<close> reads to the end of the
  stream: it prints the \<open>x\<close> that follows the sequence, the flag \<open>upgraded\<close> stays
  unset and the hook has not been called.
\<close>

theorem upgrade_trigger_ignored:
  "Run [0x1B, 0x5B, 0x3F, 0x31, 0x30, 0x34, 0x39, 0x68, 0x78] (New True) =
     Some (Inr ([],
       \<lparr>parser = \<lparr>state = None, partialParam = str ''1049'', partialParams = [],
                   partialIntermediates = str ''?''\<rparr>,
        screen = newScreen\<lparr>activeLine := [\<lparr>rune = 0x78, attrs = Some 0\<rparr>], pos := 1\<rparr>,
        upgraded = False, upgradeHook = True, hookCalls = 0\<rparr>))"
  by code_simp

section \<open>Cursor movement and deletion\<close>

text \<open>
  With the cursor at the end of the line, \<open>setPos\<close> pads the line with spaces up to
  the length \<open>y\<close>.
\<close>

lemma wrap64_id: "- (2 ^ 63) \<le> x \<Longrightarrow> x < 2 ^ 63 \<Longrightarrow> wrap64 x = x"
  by (simp add: wrap64_def)

lemma appendNode_fields:
  "activeLine (appendNode n s) = activeLine s @ [n]
   \<and> activeAttributes (appendNode n s) = activeAttributes s
   \<and> heap (appendNode n s) = heap s \<and> scrollback (appendNode n s) = scrollback s
   \<and> pos (appendNode n s) = pos s"
  by (simp add: appendNode_def split: list.splits)

lemma print_at_end:
  "pos s = int (length (activeLine s)) \<Longrightarrow> int (length (activeLine s)) + 1 < 2 ^ 63 \<Longrightarrow>
   print r s = Inr ((appendNode \<lparr>rune = r, attrs = Some (activeAttributes s)\<rparr> s)\<lparr>pos := pos s + 1\<rparr>)"
  by (simp add: print_def wrap64_id)

lemma setPos_loop_at_end:
  "pos s = int (length (activeLine s)) \<Longrightarrow> i \<le> y \<Longrightarrow>
   int (length (activeLine s)) + (y - i) < 2 ^ 63 \<Longrightarrow>
   \<exists>s'. setPos_loop i y s = Inr s'
     \<and> activeLine s' = activeLine s
          @ replicate (nat (y - i)) \<lparr>rune = 32, attrs = Some (activeAttributes s)\<rparr>
     \<and> pos s' = pos s + (y - i) \<and> activeAttributes s' = activeAttributes s"
proof (induction i y s rule: setPos_loop.induct)
  case (1 i y s)
  show ?case
  proof (cases "i < y")
    case True
    let ?sp = "\<lparr>rune = 32, attrs = Some (activeAttributes s)\<rparr>"
    let ?s1 = "(appendNode ?sp s)\<lparr>pos := pos s + 1\<rparr>"
    from True "1.prems" have p: "print 32 s = Inr ?s1"
      by (intro print_at_end) simp_all
    have f: "activeLine ?s1 = activeLine s @ [?sp]" "activeAttributes ?s1 = activeAttributes s"
      "pos ?s1 = pos s + 1"
      by (simp_all add: appendNode_fields)
    have "\<exists>s'. setPos_loop (i + 1) y ?s1 = Inr s'
        \<and> activeLine s' = activeLine ?s1
             @ replicate (nat (y - (i + 1))) \<lparr>rune = 32, attrs = Some (activeAttributes ?s1)\<rparr>
        \<and> pos s' = pos ?s1 + (y - (i + 1)) \<and> activeAttributes s' = activeAttributes ?s1"
      using True "1.prems" f by (intro "1.IH" [OF True p]) simp_all
    then obtain s' where s': "setPos_loop (i + 1) y ?s1 = Inr s'"
      "activeLine s' = (activeLine s @ [?sp]) @ replicate (nat (y - (i + 1))) ?sp"
      "pos s' = pos s + 1 + (y - (i + 1))" "activeAttributes s' = activeAttributes s"
      using f by auto
    moreover have "replicate (nat (y - i)) ?sp = ?sp # replicate (nat (y - (i + 1))) ?sp"
      using True by (simp add: replicate_Suc [symmetric] Suc_nat_eq_nat_zadd1 del: replicate_Suc)
    moreover have "setPos_loop i y s = setPos_loop (i + 1) y ?s1"
      using True p by (subst setPos_loop.simps) simp
    ultimately show ?thesis
      by simp
  next
    case False
    with "1.prems" have "y = i" by simp
    then show ?thesis
      by (subst setPos_loop.simps) simp
  qed
qed

lemma setPos_pads_at_end:
  "pos s = int (length (activeLine s)) \<Longrightarrow> int (length (activeLine s)) < y \<Longrightarrow> y < 2 ^ 63 \<Longrightarrow>
   \<exists>s'. setPos x y s = Inr s'
     \<and> activeLine s' = activeLine s
          @ replicate (nat y - length (activeLine s)) \<lparr>rune = 32, attrs = Some (activeAttributes s)\<rparr>
     \<and> pos s' = y"
proof -
  assume a: "pos s = int (length (activeLine s))" "int (length (activeLine s)) < y" "y < 2 ^ 63"
  then obtain s' where s': "setPos_loop (int (length (activeLine s))) y s = Inr s'"
    "activeLine s' = activeLine s
          @ replicate (nat (y - int (length (activeLine s)))) \<lparr>rune = 32, attrs = Some (activeAttributes s)\<rparr>"
    using setPos_loop_at_end [of s "int (length (activeLine s))" y] by auto
  with a show ?thesis
    by (simp add: setPos_def nat_diff_distrib')
qed

text \<open>
  Claim C2 (after \<open>setPos(_, y)\<close> with \<open>y > len(activeLine)\<close> the line has length \<open>y\<close>,
  the old cells are unchanged and \<open>pos == y\<close>) fails on the code when the cursor is
  not at the end of the line: the padding loop calls \<open>print\<close>, which overwrites the cell
  under the cursor instead of appending. On the bytes \<open>a b c CR ESC [ 5 C\<close> (cursor
  forward by 5 from column 0, so \<open>setPos(0, 5)\<close> on a line of length 3) the first two
  cells are overwritten by spaces, the line keeps its length 3 and \<open>pos\<close> is 5. This
  is so when every array fits its line exactly, and when the three appends get arrays
  of 1, 2 and 4 cells, as a runtime that doubles the capacity gives them: then the
  fourth cell of the array stays a spare zero cell.
\<close>

theorem setPos_overwrites_under_cursor:
  "Run [0x61, 0x62, 0x63, 0x0D, 0x1B, 0x5B, 0x35, 0x43] (New True) =
     Some (Inr ([],
       \<lparr>parser = newParser\<lparr>partialParam := str ''5''\<rparr>,
        screen = newScreen
          \<lparr>activeLine := [\<lparr>rune = 0x20, attrs = Some 0\<rparr>, \<lparr>rune = 0x20, attrs = Some 0\<rparr>,
                          \<lparr>rune = 0x63, attrs = Some 0\<rparr>],
           pos := 5\<rparr>,
        upgraded = False, upgradeHook = True, hookCalls = 0\<rparr>))
   \<and> Run [0x61, 0x62, 0x63, 0x0D, 0x1B, 0x5B, 0x35, 0x43] (withGrowth [0, 0, 1] (New True)) =
     Some (Inr ([],
       \<lparr>parser = newParser\<lparr>partialParam := str ''5''\<rparr>,
        screen = newScreen
          \<lparr>activeLine := [\<lparr>rune = 0x20, attrs = Some 0\<rparr>, \<lparr>rune = 0x20, attrs = Some 0\<rparr>,
                          \<lparr>rune = 0x63, attrs = Some 0\<rparr>],
           spare := [zeroNode],
           pos := 5\<rparr>,
        upgraded = False, upgradeHook = True, hookCalls = 0\<rparr>))"
  by code_simp

lemma backspace_at_column_zero:
  "activeLine s \<noteq> [] \<Longrightarrow> pos s = 0 \<Longrightarrow> backspace s = Inl SliceBoundsOutOfRange"
  by (simp add: backspace_def)

text \<open>
  Claim C3 (\<open>backspace\<close> does not panic on a non-empty line with \<open>pos == 0\<close>) fails
  on the code: the guard covers the empty line only. On the bytes \<open>a CR DEL\<close> the
  terminal panics with a slice bound out of range.
\<close>

theorem backspace_panics_at_column_zero:
  "Run [0x61, 0x0D, 0x7F] (New True) = Some (Inl SliceBoundsOutOfRange)"
  by code_simp


section \<open>The parameter vector of a dispatch\<close>

lemma collectParams_Nil [simp]: "collectParams [] p = p"
  by (simp add: collectParams_def)

lemma collectParams_Cons [simp]: "collectParams (c # cs) p = collectParams cs (collectParam c p)"
  by (simp add: collectParams_def)

lemma collectParams_append: "collectParams (bs @ cs) p = collectParams cs (collectParams bs p)"
  by (simp add: collectParams_def)

lemma specSplitParams_not_Nil: "specSplitParams bs \<noteq> []"
  by (induction bs) (auto split: list.splits)

lemma params_collectParams:
  "params (collectParams bs p) =
     partialParams p @ (partialParam p @ hd (specSplitParams bs)) # tl (specSplitParams bs)"
proof (induction bs arbitrary: p)
  case Nil
  show ?case by (simp add: params_def)
next
  case (Cons c cs)
  show ?case
  proof (cases "c = 0x3B")
    case True
    then show ?thesis
      using Cons.IH [of "collectParam c p"] specSplitParams_not_Nil [of cs]
      by (cases "specSplitParams cs") (simp_all add: collectParam_def)
  next
    case False
    then show ?thesis
      using Cons.IH [of "collectParam c p"] specSplitParams_not_Nil [of cs]
      by (cases "specSplitParams cs") (simp_all add: collectParam_def)
  qed
qed

lemma paramByte_cases:
  "paramByte c \<Longrightarrow> c \<noteq> 0x7F \<and> \<not> c \<le> 0x2F"
  by (auto simp: paramByte_def word_le_nat_alt)

lemma final_cases:
  "0x40 \<le> c \<Longrightarrow> c \<le> 0x7E \<Longrightarrow>
   c \<noteq> 0x7F \<and> \<not> c \<le> 0x2F \<and> \<not> paramByte c \<and> c \<noteq> 0x3A \<and> \<not> c \<le> 0x3F"
  for c :: byte
  by (auto simp: paramByte_def word_le_nat_alt)

text \<open>
  In the state \<open>parseCSIParam\<close>, a run of parameter bytes followed by a final byte is
  collected byte by byte and then dispatched.
\<close>

lemma parseCSIParam_collects:
  "list_all paramByte bs \<Longrightarrow> 0x40 \<le> final \<Longrightarrow> final \<le> 0x7E \<Longrightarrow>
   parseCSIParam (bs @ final # rest) t =
     dispatched (handleCSI (params (collectParams bs (parser t))) (intermediates (parser t)) final
                   (onParser (collectParams bs) t))
       ParseOutput (Some ParserPaused) rest"
proof (induction bs arbitrary: t)
  case Nil
  then show ?case
    using final_cases [of final] by (simp add: onParser_def)
next
  case (Cons c cs)
  then have c: "paramByte c" and cs: "list_all paramByte cs"
    by simp_all
  have "parseCSIParam ((c # cs) @ final # rest) t
        = parseCSIParam (cs @ final # rest) (onParser (collectParam c) t)"
    using paramByte_cases [OF c] c by simp
  also have "\<dots> = dispatched (handleCSI (params (collectParams cs (parser (onParser (collectParam c) t))))
        (intermediates (parser (onParser (collectParam c) t))) final
                   (onParser (collectParams cs) (onParser (collectParam c) t)))
       ParseOutput (Some ParserPaused) rest"
    using Cons.IH [OF cs Cons.prems(2,3)] .
  finally show ?case
    by (simp add: onParser_def intermediates_def collectParam_def)
qed

text \<open>
  Claim C8: the parameter vector emitted at dispatch time is
  \<open>partialParams ++ [partialParam]\<close>. For the bytes \<open>bs\<close> collected by \<open>collectParam\<close>
  after a \<open>clear\<close> this is \<open>bs\<close> split at its semicolons; with no parameter bytes it is
  the one-element vector of the empty string; a trailing semicolon adds a trailing empty
  element; and the state \<open>parseCSIParam\<close> hands exactly this vector, built from the bytes
  it collected, to \<open>handleCSI\<close> when the final byte arrives.
\<close>

theorem params_at_dispatch:
  "params (collectParams bs (clearParser p)) = specSplitParams bs
   \<and> params (clearParser p) = [[]]
   \<and> params (collectParams (bs @ [0x3B]) q) = params (collectParams bs q) @ [[]]
   \<and> (list_all paramByte bs \<and> 0x40 \<le> final \<and> final \<le> 0x7E \<longrightarrow>
        parseCSIParam (bs @ final # rest) t =
          dispatched
            (handleCSI (partialParams (collectParams bs (parser t))
                          @ [partialParam (collectParams bs (parser t))])
               (partialIntermediates (parser t)) final (onParser (collectParams bs) t))
            ParseOutput (Some ParserPaused) rest)"
proof (intro conjI impI)
  show "params (collectParams bs (clearParser p)) = specSplitParams bs"
    using specSplitParams_not_Nil [of bs]
    by (simp add: params_collectParams clearParser_def)
  show "params (clearParser p) = [[]]"
    by (simp add: params_def clearParser_def)
  show "params (collectParams (bs @ [0x3B]) q) = params (collectParams bs q) @ [[]]"
    by (simp add: collectParams_append params_def collectParam_def)
next
  assume "list_all paramByte bs \<and> 0x40 \<le> final \<and> final \<le> 0x7E"
  then show "parseCSIParam (bs @ final # rest) t =
          dispatched
            (handleCSI (partialParams (collectParams bs (parser t))
                          @ [partialParam (collectParams bs (parser t))])
               (partialIntermediates (parser t)) final (onParser (collectParams bs) t))
            ParseOutput (Some ParserPaused) rest"
    using parseCSIParam_collects [of bs final rest t]
    by (simp add: params_def intermediates_def)
qed

theorem params_at_dispatch_witness:
  "params (collectParams (str ''38;5;'') (clearParser newParser)) = [str ''38'', str ''5'', []]
   \<and> params (clearParser newParser) = [[]]
   \<and> parseCSIParam (str ''38;5;'' @ 0x6D # [0x78]) (New True) =
        dispatched
          (handleCSI [str ''38'', str ''5'', []] [] 0x6D (onParser (collectParams (str ''38;5;'')) (New True)))
          ParseOutput (Some ParserPaused) [0x78]"
proof -
  have h: "list_all paramByte (str ''38;5;'') \<and> (0x40 :: byte) \<le> 0x6D \<and> (0x6D :: byte) \<le> 0x7E"
    by (simp add: str_def paramByte_def)
  have s: "specSplitParams (str ''38;5;'') = [str ''38'', str ''5'', []]"
    by (simp add: str_def)
  have c: "partialParams (collectParams (str ''38;5;'') (parser (New True)))
             @ [partialParam (collectParams (str ''38;5;'') (parser (New True)))]
           = [str ''38'', str ''5'', []]"
    by (simp add: str_def New_def newParser_def collectParam_def)
  have i: "partialIntermediates (parser (New True)) = []"
    by (simp add: New_def newParser_def)
  show ?thesis
    using params_at_dispatch [of "str ''38;5;''" newParser newParser "0x6D" "[0x78]" "New True"] h s c i
    by simp
qed


section \<open>Rendering\<close>

lemma escapeByte_no_lt: "0x3C \<notin> set (escapeByte c)"
  by (simp add: escapeByte_def str_def)

lemma EscapeString_no_lt: "0x3C \<notin> set (EscapeString s)"
  by (simp add: EscapeString_def escapeByte_no_lt)

lemma closeTags_zero: "closeTags zeroAttributes = []"
  by (simp add: closeTags_def Empty_def zeroAttributes_def)

lemma renderLine_loop_defaults:
  "\<forall>n\<in>set line. \<exists>a. attrs n = Some a \<and> h ! a = zeroAttributes \<Longrightarrow>
   h ! p = zeroAttributes \<Longrightarrow>
   renderLine_loop colorCode h (Some p) raw line =
     Inr (raw @ concat (map (\<lambda>n. EscapeString (runeString (rune n))) line))"
proof (induction line arbitrary: raw)
  case Nil
  then show ?case by (simp add: closeTags_zero)
next
  case (Cons n ns)
  then obtain a where a: "attrs n = Some a" "h ! a = zeroAttributes"
    by auto
  with Cons.prems have "Equals h (attrs n) (Some p) = Inr True"
    by (simp add: Equals_def)
  moreover have "renderLine_loop colorCode h (Some p) (raw @ EscapeString (runeString (rune n))) ns =
      Inr ((raw @ EscapeString (runeString (rune n)))
             @ concat (map (\<lambda>n. EscapeString (runeString (rune n))) ns))"
    using Cons.prems by (intro Cons.IH) simp_all
  ultimately show ?case by simp
qed

text \<open>
  Claim C10: a line all of whose nodes reference a bundle equal to the all-defaults
  bundle renders to the concatenation of its HTML-escaped runes. The output holds no
  \<open><\<close> at all, so no \<open><span>\<close> and no \<open><a>\<close>; the empty line renders to the empty
  string. The rendering does not panic.
\<close>

theorem renderLine_all_defaults:
  "\<forall>n\<in>set line. \<exists>a. attrs n = Some a \<and> a < length h \<and> h ! a = zeroAttributes \<Longrightarrow>
   (\<exists>out. renderLine colorCode h line = Inr out
      \<and> out = concat (map (\<lambda>n. EscapeString (runeString (rune n))) line)
      \<and> 0x3C \<notin> set out)
   \<and> renderLine colorCode h [] = Inr []"
proof -
  assume a: "\<forall>n\<in>set line. \<exists>a. attrs n = Some a \<and> a < length h \<and> h ! a = zeroAttributes"
  let ?h = "h @ [zeroAttributes]"
  have 1: "\<forall>n\<in>set line. \<exists>a. attrs n = Some a \<and> ?h ! a = zeroAttributes"
  proof
    fix n assume "n \<in> set line"
    with a obtain x where "attrs n = Some x" "x < length h" "h ! x = zeroAttributes"
      by blast
    then show "\<exists>a. attrs n = Some a \<and> ?h ! a = zeroAttributes"
      by (simp add: nth_append)
  qed
  have 2: "?h ! length h = zeroAttributes"
    by simp
  have r: "renderLine colorCode h line =
      Inr (concat (map (\<lambda>n. EscapeString (runeString (rune n))) line))"
    using renderLine_loop_defaults [OF 1 2, of colorCode "[]"] by (simp add: renderLine_def)
  have "0x3C \<notin> set (concat (map (\<lambda>n. EscapeString (runeString (rune n))) line))"
    by (simp add: EscapeString_no_lt)
  moreover have "renderLine colorCode h [] = Inr []"
    by (simp add: renderLine_def closeTags_zero)
  ultimately show ?thesis using r by simp
qed

theorem renderLine_all_defaults_witness:
  "renderLine (\<lambda>c. []) [zeroAttributes]
       [\<lparr>rune = 0x3C, attrs = Some 0\<rparr>, \<lparr>rune = 0x41, attrs = Some 0\<rparr>]
     = Inr (str ''&lt;A'')
   \<and> 0x3C \<notin> set (str ''&lt;A'')"
  using renderLine_all_defaults [of "[\<lparr>rune = 0x3C, attrs = Some 0\<rparr>, \<lparr>rune = 0x41, attrs = Some 0\<rparr>]"
      "[zeroAttributes]" "\<lambda>c. []"]
  by (simp add: EscapeString_def escapeByte_def runeString_def str_def)

section \<open>Extended colors in SGR\<close>

lemma activeBundle_store_copy:
  "activeBundle (storeActive f (copyAttributes s)) = f (activeBundle s)"
  by (simp add: activeBundle_def storeActive_def copyAttributes_def)

lemma activeBundle_setFg: "fg (activeBundle (setFg c s)) = c"
  by (simp add: setFg_def activeBundle_store_copy)

lemma activeBundle_setBg: "bg (activeBundle (setBg c s)) = c"
  by (simp add: setBg_def activeBundle_store_copy)

lemma handleSGR_38_48:
  "p = 38 \<or> p = 48 \<Longrightarrow>
   handleSGR (p # ps) s = Inr (handleColorSeq (if p = 38 then setFg else setBg) (p # ps) s)"
  by (auto simp: handleSGR_def sgrSwitch_def)

text \<open>
  Claim C7: with a leading parameter 38 or 48, \<open>handleSGR\<close> consumes five parameters
  and sets the foreground (38) or background (48) to the direct color of the three
  values after a 2, when at least three follow it; three parameters and the indexed
  color of the value after a 5, when at least one follows it; and otherwise the 38 or
  48 alone, changing nothing. The loop goes on with the parameters that remain, and
  with none left it returns the screen as it stands. (The last line: after \<open>setFg\<close>
  and \<open>setBg\<close> the active bundle holds the color.)
\<close>

theorem extended_color_rule:
  "p = 38 \<or> p = 48 \<Longrightarrow>
   handleSGR (p # ps) s =
     Inr (if 4 \<le> length ps \<and> ps ! 0 = 2 then
            ((if p = 38 then setFg else setBg)
               (Some (RGBColor (word_of_int (ps ! 1)) (word_of_int (ps ! 2)) (word_of_int (ps ! 3)))) s, 5)
          else if 2 \<le> length ps \<and> ps ! 0 = 5 then
            ((if p = 38 then setFg else setBg) (Some (ANSIColor (word_of_int (ps ! 1)))) s, 3)
          else (s, 1))
   \<and> sgr_loop (p # ps) s =
       (if 4 \<le> length ps \<and> ps ! 0 = 2 then
          sgr_loop (drop 4 ps)
            ((if p = 38 then setFg else setBg)
               (Some (RGBColor (word_of_int (ps ! 1)) (word_of_int (ps ! 2)) (word_of_int (ps ! 3)))) s)
        else if 2 \<le> length ps \<and> ps ! 0 = 5 then
          sgr_loop (drop 2 ps)
            ((if p = 38 then setFg else setBg) (Some (ANSIColor (word_of_int (ps ! 1)))) s)
        else sgr_loop ps s)
   \<and> sgr_loop [] s = Inr s
   \<and> fg (activeBundle (setFg c s)) = c \<and> bg (activeBundle (setBg c s)) = c"
proof -
  assume p: "p = 38 \<or> p = 48"
  have h: "handleSGR (p # ps) s =
     Inr (if 4 \<le> length ps \<and> ps ! 0 = 2 then
            ((if p = 38 then setFg else setBg)
               (Some (RGBColor (word_of_int (ps ! 1)) (word_of_int (ps ! 2)) (word_of_int (ps ! 3)))) s, 5)
          else if 2 \<le> length ps \<and> ps ! 0 = 5 then
            ((if p = 38 then setFg else setBg) (Some (ANSIColor (word_of_int (ps ! 1)))) s, 3)
          else (s, 1))"
    unfolding handleSGR_38_48 [OF p] handleColorSeq_def
    by (auto simp: nth_Cons' numeral_2_eq_2 numeral_3_eq_3)
  have l: "sgr_loop (p # ps) s =
       (if 4 \<le> length ps \<and> ps ! 0 = 2 then
          sgr_loop (drop 4 ps)
            ((if p = 38 then setFg else setBg)
               (Some (RGBColor (word_of_int (ps ! 1)) (word_of_int (ps ! 2)) (word_of_int (ps ! 3)))) s)
        else if 2 \<le> length ps \<and> ps ! 0 = 5 then
          sgr_loop (drop 2 ps)
            ((if p = 38 then setFg else setBg) (Some (ANSIColor (word_of_int (ps ! 1)))) s)
        else sgr_loop ps s)"
    by (subst sgr_loop.simps) (simp add: h)
  have e: "sgr_loop [] s = Inr s"
    by (subst sgr_loop.simps) simp
  show ?thesis
    using h l e by (simp add: activeBundle_setFg activeBundle_setBg)
qed


text \<open>
  On a new screen, \<open>38;2;10;20;30\<close> leaves a copy of the bundle with the direct color
  as its foreground, \<open>48;5;7\<close> one with the indexed color 7 as its background, and a
  lone \<open>38\<close> the screen as it was.
\<close>

theorem extended_color_rule_witness:
  "handleSGR [38, 2, 10, 20, 30] newScreen =
     Inr (newScreen\<lparr>heap := [zeroAttributes, zeroAttributes\<lparr>fg := Some (RGBColor 10 20 30)\<rparr>],
                    activeAttributes := 1\<rparr>, 5)
   \<and> sgr_loop [38, 2, 10, 20, 30] newScreen =
       Inr (newScreen\<lparr>heap := [zeroAttributes, zeroAttributes\<lparr>fg := Some (RGBColor 10 20 30)\<rparr>],
                      activeAttributes := 1\<rparr>)
   \<and> sgr_loop [48, 5, 7] newScreen =
       Inr (newScreen\<lparr>heap := [zeroAttributes, zeroAttributes\<lparr>bg := Some (ANSIColor 7)\<rparr>],
                      activeAttributes := 1\<rparr>)
   \<and> sgr_loop [38] newScreen = Inr newScreen
   \<and> fg (activeBundle (setFg (Some (RGBColor 10 20 30)) newScreen)) = Some (RGBColor 10 20 30)"
  using extended_color_rule [of 38 "[2, 10, 20, 30]" newScreen "Some (RGBColor 10 20 30)"]
    extended_color_rule [of 38 "[]"
      "newScreen\<lparr>heap := [zeroAttributes, zeroAttributes\<lparr>fg := Some (RGBColor 10 20 30)\<rparr>],
                 activeAttributes := 1\<rparr>" None]
    extended_color_rule [of 48 "[5, 7]" newScreen None]
    extended_color_rule [of 48 "[]"
      "newScreen\<lparr>heap := [zeroAttributes, zeroAttributes\<lparr>bg := Some (ANSIColor 7)\<rparr>],
                 activeAttributes := 1\<rparr>" None]
    extended_color_rule [of 38 "[]" newScreen None]
  by (simp add: setFg_def setBg_def storeActive_def copyAttributes_def newScreen_def)

section \<open>The DEL control byte\<close>

text \<open>
  Claim C5, amended. A DEL dispatched through \<open>handleCtrl\<close> is \<open>backspace\<close>: on an empty
  line it does nothing; on a non-empty line with \<open>1 \<le> pos \<le> len(activeLine)\<close> it
  removes the cell at index \<open>pos - 1\<close>, the one before the cursor, and decrements \<open>pos\<close>.
  (The array keeps the last node of the line in the cell that the line gives up.)
\<close>

theorem DEL_removes_cell_before_cursor:
  "(activeLine (screen t) = [] \<longrightarrow> handleCtrl 0x7F t = Inr t)
   \<and> (activeLine (screen t) \<noteq> [] \<and> 1 \<le> pos (screen t)
        \<and> pos (screen t) \<le> int (length (activeLine (screen t))) \<longrightarrow>
      handleCtrl 0x7F t =
        Inr (t\<lparr>screen := (screen t)
               \<lparr>activeLine := take (nat (pos (screen t) - 1)) (activeLine (screen t))
                               @ drop (nat (pos (screen t))) (activeLine (screen t)),
                spare := last (activeLine (screen t)) # spare (screen t),
                pos := pos (screen t) - 1\<rparr>\<rparr>))"
  by (simp add: handleCtrl_def onScreenF_def backspace_def)

theorem DEL_removes_cell_before_cursor_witness:
  "handleCtrl 0x7F (New True) = Inr (New True)
   \<and> handleCtrl 0x7F
        ((New True)\<lparr>screen := newScreen
           \<lparr>activeLine := [\<lparr>rune = 0x61, attrs = Some 0\<rparr>, \<lparr>rune = 0x62, attrs = Some 0\<rparr>, \<lparr>rune = 0x63, attrs = Some 0\<rparr>],
            pos := 2\<rparr>\<rparr>)
      = Inr ((New True)\<lparr>screen := newScreen
           \<lparr>activeLine := [\<lparr>rune = 0x61, attrs = Some 0\<rparr>, \<lparr>rune = 0x63, attrs = Some 0\<rparr>],
            spare := [\<lparr>rune = 0x63, attrs = Some 0\<rparr>], pos := 1\<rparr>\<rparr>)"
  using DEL_removes_cell_before_cursor [of "New True"]
    DEL_removes_cell_before_cursor [of "(New True)\<lparr>screen := newScreen
           \<lparr>activeLine := [\<lparr>rune = 0x61, attrs = Some 0\<rparr>, \<lparr>rune = 0x62, attrs = Some 0\<rparr>, \<lparr>rune = 0x63, attrs = Some 0\<rparr>],
            pos := 2\<rparr>\<rparr>"]
  by (simp add: New_def newScreen_def)

text \<open>
  The claim as stated fails: with the line \<open>ab\<close> and the cursor on \<open>b\<close> (\<open>pos = 1\<close>), DEL
  leaves \<open>b\<close>, not the line without its cell at index \<open>pos\<close>, which is \<open>a\<close>. The bytes
  \<open>a b BS DEL\<close> reach this state and end with the line \<open>b\<close>.
\<close>

theorem DEL_under_cursor_counterexample:
  "handleCtrl 0x7F
        ((New True)\<lparr>screen := newScreen
           \<lparr>activeLine := [\<lparr>rune = 0x61, attrs = Some 0\<rparr>, \<lparr>rune = 0x62, attrs = Some 0\<rparr>], pos := 1\<rparr>\<rparr>)
      = Inr ((New True)\<lparr>screen := newScreen
           \<lparr>activeLine := [\<lparr>rune = 0x62, attrs = Some 0\<rparr>],
            spare := [\<lparr>rune = 0x62, attrs = Some 0\<rparr>], pos := 0\<rparr>\<rparr>)
   \<and> [\<lparr>rune = 0x62, attrs = Some (0 :: nat)\<rparr>]
       \<noteq> take 1 [\<lparr>rune = 0x61, attrs = Some 0\<rparr>, \<lparr>rune = 0x62, attrs = Some 0\<rparr>]
           @ drop 2 [\<lparr>rune = 0x61, attrs = Some 0\<rparr>, \<lparr>rune = 0x62, attrs = Some 0\<rparr>]
   \<and> Run [0x61, 0x62, 0x08, 0x7F] (New True)
      = Some (Inr ([], (New True)\<lparr>screen := newScreen
           \<lparr>activeLine := [\<lparr>rune = 0x62, attrs = Some 0\<rparr>],
            spare := [\<lparr>rune = 0x62, attrs = Some 0\<rparr>], pos := 0\<rparr>\<rparr>))"
  by code_simp

section \<open>Non-integer CSI parameters\<close>

lemma convertParams_fails:
  "list_ex (\<lambda>p. p \<noteq> [] \<and> Atoi p = None) ps \<Longrightarrow>
   convertParamsWithDefault d ps = Inl NonIntegerParam"
proof (induction ps)
  case Nil
  then show ?case by simp
next
  case (Cons p ps)
  show ?case
  proof (cases "p \<noteq> [] \<and> Atoi p = None")
    case True
    then show ?thesis by simp
  next
    case False
    with Cons.prems have "list_ex (\<lambda>p. p \<noteq> [] \<and> Atoi p = None) ps"
      by auto
    then have "convertParamsWithDefault d ps = Inl NonIntegerParam"
      by (rule Cons.IH)
    then show ?thesis
      by (simp split: option.splits)
  qed
qed

lemma convertParams_result:
  "convertParamsWithDefault d ps = Inr ns \<Longrightarrow>
   length ns = length ps
   \<and> (\<forall>i<length ps. ns ! i = (if ps ! i = [] then d else the (Atoi (ps ! i))))"
proof (induction ps arbitrary: ns)
  case Nil
  then show ?case by simp
next
  case (Cons p ps)
  from Cons.prems obtain n ns' where
    ns: "ns = n # ns'" and n: "n = (if p = [] then d else the (Atoi p))"
    and r: "convertParamsWithDefault d ps = Inr ns'"
    by (auto split: if_splits sum.splits option.splits)
  from Cons.IH [OF r] show ?case
    by (auto simp: ns n nth_Cons')
qed

lemma csiPlain_fails:
  "final \<in> set csiFinals \<Longrightarrow> list_ex (\<lambda>p. p \<noteq> [] \<and> Atoi p = None) ps \<Longrightarrow>
   csiPlain ps im final t = Inl NonIntegerParam"
  by (auto simp: csiPlain_def csiFinals_def convertParams_fails)

lemma csiPlain_other:
  "final \<notin> set csiFinals \<Longrightarrow> csiPlain ps im final t = Inr t"
  by (simp add: csiPlain_def csiFinals_def)

text \<open>
  Claim C6, amended. With empty intermediates and a final byte \<open>handleCSI\<close> has a
  case for (C, D, E, J, K, G, H, h, m), a parameter that is neither empty nor an integer
  makes \<open>handleCSI\<close> panic; where the conversion succeeds, the vector keeps its length
  and every empty parameter is replaced by the default.
\<close>

theorem handleCSI_non_integer_param:
  "(final \<in> set csiFinals \<and> list_ex (\<lambda>p. p \<noteq> [] \<and> Atoi p = None) ps \<longrightarrow>
      handleCSI ps [] final t = Inl NonIntegerParam)
   \<and> (convertParamsWithDefault d ps = Inr ns \<longrightarrow>
        length ns = length ps
        \<and> (\<forall>i<length ps. ns ! i = (if ps ! i = [] then d else the (Atoi (ps ! i)))))"
proof (intro conjI impI)
  assume a: "final \<in> set csiFinals \<and> list_ex (\<lambda>p. p \<noteq> [] \<and> Atoi p = None) ps"
  then have "ps \<noteq> []" by auto
  with a show "handleCSI ps [] final t = Inl NonIntegerParam"
    by (simp add: handleCSI_def csiPlain_fails)
next
  assume "convertParamsWithDefault d ps = Inr ns"
  then show "length ns = length ps"
    and "\<forall>i<length ps. ns ! i = (if ps ! i = [] then d else the (Atoi (ps ! i)))"
    using convertParams_result by blast+
qed

theorem handleCSI_non_integer_param_witness:
  "handleCSI [str ''1'', [], str ''99999999999999999999''] [] 0x6D (New True) = Inl NonIntegerParam
   \<and> convertParamsWithDefault 7 [str ''12'', [], str ''-3''] = Inr [12, 7, - 3]
   \<and> length [12, 7, - 3 :: int] = length [str ''12'', [], str ''-3'']
   \<and> [12, 7, - 3] ! 1 = (if [str ''12'', [], str ''-3''] ! 1 = [] then 7
                          else the (Atoi ([str ''12'', [], str ''-3''] ! 1)))"
proof -
  have 1: "(0x6D :: byte) \<in> set csiFinals
      \<and> list_ex (\<lambda>p. p \<noteq> [] \<and> Atoi p = None) [str ''1'', [], str ''99999999999999999999'']"
    by (simp add: csiFinals_def Atoi_def str_def isDigit_def)
  have 2: "convertParamsWithDefault 7 [str ''12'', [], str ''-3''] = Inr [12, 7, - 3]"
    by (simp add: Atoi_def str_def isDigit_def)
  have a: "handleCSI [str ''1'', [], str ''99999999999999999999''] [] 0x6D (New True) = Inl NonIntegerParam"
    by (rule handleCSI_non_integer_param [THEN conjunct1, THEN mp, OF 1])
  note c = handleCSI_non_integer_param [THEN conjunct2, THEN mp, OF 2]
  have l: "length [12, 7, - 3 :: int] = length [str ''12'', [], str ''-3'']"
    by (rule c [THEN conjunct1])
  have "(1 :: nat) < length [str ''12'', [], str ''-3'']"
    by simp
  with c [THEN conjunct2] have d: "[12, 7, - 3] ! 1 = (if [str ''12'', [], str ''-3''] ! 1 = [] then 7
                          else the (Atoi ([str ''12'', [], str ''-3''] ! 1)))"
    by blast
  show ?thesis using a 2 l d by (intro conjI)
qed

text \<open>
  The claim as stated fails: CSI with the parameter \<open>99999999999999999999\<close> (digits
  only, as the parser collects them, but outside the range of \<open>int\<close>) and the final byte
  \<open>A\<close>, for which \<open>handleCSI\<close> has no case, does not panic and changes nothing; the
  parser delivers this dispatch on the bytes \<open>ESC [ 99999999999999999999 A\<close> and \<open>Run\<close>
  ends normally, the screen untouched.
\<close>

theorem handleCSI_unknown_final_counterexample:
  "Atoi (str ''99999999999999999999'') = None \<and> str ''99999999999999999999'' \<noteq> []
   \<and> handleCSI [str ''99999999999999999999''] [] 0x41 (New True) = Inr (New True)
   \<and> Run (0x1B # str ''[99999999999999999999A'') (New True)
      = Some (Inr ([], (New True)\<lparr>parser := newParser\<lparr>partialParam := str ''99999999999999999999''\<rparr>\<rparr>))"
  by code_simp

text \<open>
  The switch on the final byte is taken with empty intermediates only: the same
  parameter after the private marker \<open>>\<close>, with the final byte \<open>m\<close>, is not an SGR
  sequence and is not converted.
\<close>

lemma handleCSI_private_marker_example:
  "handleCSI [str ''99999999999999999999''] (str ''>'') 0x6D (New True) = Inr (New True)"
  by code_simp

section \<open>What the operations keep: the store, the pointers, the two script flags\<close>

lemma keeps_refl [simp]: "keeps s s"
  by (simp add: keeps_def)

lemma keeps_trans: "keeps s s1 \<Longrightarrow> keeps s1 s2 \<Longrightarrow> keeps s s2"
  by (auto simp: keeps_def)

lemma keeps_frame:
  assumes "heap s' = heap s" and "activeAttributes s' = activeAttributes s"
    and "cells s' \<subseteq> cells s \<union> {n. attrs n = Some (activeAttributes s)} \<union> {zeroNode}"
  shows "keeps s s'"
proof -
  have "wellFormed s'" if w: "wellFormed s"
  proof -
    have "a < length (heap s)" if n: "n \<in> cells s'" and a: "attrs n = Some a" for n a
    proof -
      from n assms(3) consider "n \<in> cells s" | "attrs n = Some (activeAttributes s)" | "n = zeroNode"
        by blast
      then show ?thesis
      proof cases
        case 1
        with w a show ?thesis by (simp add: wellFormed_def)
      next
        case 2
        with w a show ?thesis by (simp add: wellFormed_def)
      next
        case 3
        with a show ?thesis by (simp add: zeroNode_def)
      qed
    qed
    with w assms(1,2) show ?thesis
      by (simp add: wellFormed_def)
  qed
  with assms(1,2) show ?thesis
    by (simp add: keeps_def activeBundle_def)
qed

lemma cells_appendNode: "cells (appendNode n s) \<subseteq> cells s \<union> {n} \<union> {zeroNode}"
  by (auto simp: appendNode_def cells_def nodes_def split: list.splits)

lemma keeps_print: "print r s = Inr s' \<Longrightarrow> keeps s s'"
proof -
  assume a: "print r s = Inr s'"
  let ?n = "\<lparr>rune = r, attrs = Some (activeAttributes s)\<rparr>"
  have u: "set ((activeLine s)[nat (pos s) := ?n]) \<subseteq> insert ?n (set (activeLine s))"
    by (rule set_update_subset_insert)
  show ?thesis
  proof (cases "pos s < int (length (activeLine s))")
    case True
    with a have s': "s' = s\<lparr>activeLine := (activeLine s)[nat (pos s) := ?n], pos := wrap64 (pos s + 1)\<rparr>"
      by (auto simp: print_def Let_def split: if_splits)
    from u show ?thesis
      unfolding s' by (intro keeps_frame) (auto simp: cells_def nodes_def)
  next
    case False
    with a have s': "s' = (appendNode ?n s)\<lparr>pos := wrap64 (pos s + 1)\<rparr>"
      by (auto simp: print_def Let_def split: if_splits)
    have "cells s' = cells (appendNode ?n s)"
      unfolding s' by (simp add: cells_def nodes_def)
    with cells_appendNode [of ?n s] show ?thesis
      unfolding s' by (intro keeps_frame) (auto simp: appendNode_fields)
  qed
qed

lemma keeps_backspace: "backspace s = Inr s' \<Longrightarrow> keeps s s'"
proof -
  assume a: "backspace s = Inr s'"
  show ?thesis
  proof (cases "activeLine s = []")
    case True
    with a show ?thesis by (simp add: backspace_def)
  next
    case False
    then have "last (activeLine s) \<in> set (activeLine s)"
      by simp
    with a False show ?thesis
      by (intro keeps_frame)
        (auto simp: backspace_def cells_def nodes_def split: if_splits
           dest: in_set_takeD in_set_dropD)
  qed
qed

lemma keeps_newline: "keeps s (newline s)"
  by (intro keeps_frame) (auto simp: newline_def cells_def nodes_def)

lemma keeps_cr: "keeps s (cr s)"
  by (intro keeps_frame) (auto simp: cr_def cells_def nodes_def)

lemma keeps_clear: "keeps s (clear s)"
  by (intro keeps_frame) (auto simp: clear_def cells_def nodes_def)

lemma keeps_clearRight: "clearRight s = Inr s' \<Longrightarrow> keeps s s'"
proof -
  assume a: "clearRight s = Inr s'"
  let ?k = "nat (pos s)"
  from a have s': "s' = s\<lparr>activeLine := take ?k (activeLine s @ spare s),
                          spare := drop ?k (activeLine s @ spare s)\<rparr>"
    by (auto simp: clearRight_def split: if_splits)
  have "set (take ?k (activeLine s @ spare s)) \<union> set (drop ?k (activeLine s @ spare s))
      = set (activeLine s) \<union> set (spare s)"
    using set_append [of "take ?k (activeLine s @ spare s)" "drop ?k (activeLine s @ spare s)"]
    by (simp only: append_take_drop_id set_append)
  then have "cells s' = cells s"
    unfolding s' by (auto simp: cells_def nodes_def)
  then show ?thesis
    unfolding s' by (intro keeps_frame) auto
qed

lemma keeps_pos: "keeps s (s\<lparr>pos := y\<rparr>)"
  by (intro keeps_frame) (auto simp: cells_def nodes_def)

lemma keeps_setPos_loop: "setPos_loop i y s = Inr s' \<Longrightarrow> keeps s s'"
proof (induction i y s rule: setPos_loop.induct)
  case (1 i y s)
  show ?case
  proof (cases "i < y")
    case True
    with "1.prems" obtain s1 where p: "print 32 s = Inr s1" and l: "setPos_loop (i + 1) y s1 = Inr s'"
      by (subst (asm) setPos_loop.simps) (auto split: sum.splits)
    from "1.IH" [OF True p l] keeps_print [OF p] show ?thesis
      by (blast intro: keeps_trans)
  next
    case False
    with "1.prems" show ?thesis
      by (subst (asm) setPos_loop.simps) simp
  qed
qed

lemma keeps_setPos: "setPos x y s = Inr s' \<Longrightarrow> keeps s s'"
  by (auto simp: setPos_def split: if_splits sum.splits
      intro: keeps_pos keeps_trans [OF keeps_setPos_loop keeps_pos])

lemma keeps_left: "left n s = Inr s' \<Longrightarrow> keeps s s'"
  by (auto simp: left_def intro: keeps_setPos)

lemma keeps_right: "right n s = Inr s' \<Longrightarrow> keeps s s'"
  by (auto simp: right_def intro: keeps_setPos)

lemma keeps_newlines_loop: "keeps s (newlines_loop i n s)"
proof (induction i n s rule: newlines_loop.induct)
  case (1 i n s)
  show ?case
  proof (cases "i < n")
    case True
    from "1.IH" [OF True] keeps_newline [of s] show ?thesis
      by (subst newlines_loop.simps) (auto simp: True intro: keeps_trans)
  next
    case False
    then show ?thesis
      by (subst newlines_loop.simps) simp
  qed
qed

lemma keeps_newlines: "keeps s (newlines n s)"
  by (simp add: newlines_def keeps_newlines_loop)

lemma keeps_clearLeft_loop: "clearLeft_loop i s = Inr s' \<Longrightarrow> keeps s s'"
proof (induction i s rule: clearLeft_loop.induct)
  case (1 i s)
  let ?s1 = "s\<lparr>activeLine := (activeLine s)[nat i := \<lparr>rune = 32, attrs = Some (activeAttributes s)\<rparr>]\<rparr>"
  show ?case
  proof (cases "i < pos s")
    case True
    with "1.prems" have r: "\<not> (i < 0 \<or> int (length (activeLine s)) \<le> i)"
      and l: "clearLeft_loop (i + 1) ?s1 = Inr s'"
      by (subst (asm) clearLeft_loop.simps, auto split: if_splits)+
    have "set ((activeLine s)[nat i := \<lparr>rune = 32, attrs = Some (activeAttributes s)\<rparr>])
        \<subseteq> insert \<lparr>rune = 32, attrs = Some (activeAttributes s)\<rparr> (set (activeLine s))"
      by (rule set_update_subset_insert)
    then have "keeps s ?s1"
      by (intro keeps_frame) (auto simp: cells_def nodes_def)
    with "1.IH" [OF True r l] show ?thesis
      by (blast intro: keeps_trans)
  next
    case False
    with "1.prems" show ?thesis
      by (subst (asm) clearLeft_loop.simps) simp
  qed
qed

lemma keeps_clearLeft: "clearLeft s = Inr s' \<Longrightarrow> keeps s s'"
  by (simp add: clearLeft_def keeps_clearLeft_loop)


lemma heap_store_copy:
  "heap (storeActive f (copyAttributes s)) = heap s @ [f (activeBundle s)]
   \<and> activeAttributes (storeActive f (copyAttributes s)) = length (heap s)
   \<and> activeLine (storeActive f (copyAttributes s)) = activeLine s
   \<and> spare (storeActive f (copyAttributes s)) = spare s
   \<and> scrollback (storeActive f (copyAttributes s)) = scrollback s
   \<and> pos (storeActive f (copyAttributes s)) = pos s"
  by (simp add: storeActive_def copyAttributes_def activeBundle_def)

lemma wellFormed_grow:
  assumes "wellFormed s" and "cells s' = cells s" and "heap s' = heap s @ [v]"
    and "activeAttributes s' = length (heap s)"
  shows "wellFormed s'"
proof -
  have "a < length (heap s')" if "n \<in> cells s'" and "attrs n = Some a" for n a
  proof -
    from that assms(1,2) have "a < length (heap s)"
      by (simp add: wellFormed_def)
    with assms(3) show ?thesis by simp
  qed
  with assms(3,4) show ?thesis
    by (simp add: wellFormed_def)
qed

lemma keeps_store_copy:
  assumes "superAndSub (f (activeBundle s)) \<longrightarrow> superAndSub (activeBundle s)"
  shows "keeps s (storeActive f (copyAttributes s))"
proof -
  let ?s' = "storeActive f (copyAttributes s)"
  have n: "cells ?s' = cells s"
    using heap_store_copy [of f s] by (simp add: cells_def nodes_def)
  have "wellFormed s \<longrightarrow> wellFormed ?s'"
    using wellFormed_grow [OF _ n] heap_store_copy [of f s] by blast
  moreover have "prefix (heap s) (heap ?s')"
    using heap_store_copy [of f s] by simp
  ultimately show ?thesis
    using assms by (simp add: keeps_def activeBundle_store_copy)
qed

lemma keeps_resetAttributes: "keeps s (resetAttributes s)"
proof -
  have n: "cells (resetAttributes s) = cells s"
    by (simp add: cells_def nodes_def resetAttributes_def)
  have "wellFormed s \<longrightarrow> wellFormed (resetAttributes s)"
    using wellFormed_grow [OF _ n, of zeroAttributes] by (simp add: resetAttributes_def)
  moreover have "\<not> superAndSub (activeBundle (resetAttributes s))"
    by (simp add: resetAttributes_def activeBundle_def superAndSub_def hasStyle_def
        zeroAttributes_def)
  ultimately show ?thesis
    by (simp add: keeps_def resetAttributes_def)
qed

lemma superAndSub_fg [simp]: "superAndSub (a\<lparr>fg := c\<rparr>) = superAndSub a"
  by (simp add: superAndSub_def hasStyle_def)

lemma superAndSub_bg [simp]: "superAndSub (a\<lparr>bg := c\<rparr>) = superAndSub a"
  by (simp add: superAndSub_def hasStyle_def)

lemma superAndSub_uri [simp]: "superAndSub (a\<lparr>uri := u\<rparr>) = superAndSub a"
  by (simp add: superAndSub_def hasStyle_def)

lemma keeps_setFg: "keeps s (setFg c s)"
  by (simp add: setFg_def keeps_store_copy)

lemma keeps_setBg: "keeps s (setBg c s)"
  by (simp add: setBg_def keeps_store_copy)

lemma keeps_setURI: "keeps s (setURI u s)"
  by (simp add: setURI_def keeps_store_copy)

lemma keeps_resetURI: "keeps s (resetURI s)"
  by (simp add: resetURI_def keeps_store_copy)

lemma bit_Superscript: "bit Superscript n \<longleftrightarrow> n = 9"
  unfolding Superscript_def by (auto simp only: bit_push_bit_iff bit_1_iff possible_bit_word len_bit0 len_num1 split: if_splits)

lemma bit_Subscript: "bit Subscript n \<longleftrightarrow> n = 10"
  unfolding Subscript_def by (auto simp only: bit_push_bit_iff bit_1_iff possible_bit_word len_bit0 len_num1 split: if_splits)

lemma flags_73:
  "((f OR Superscript) AND NOT Subscript) AND Superscript = Superscript
   \<and> ((f OR Superscript) AND NOT Subscript) AND Subscript = 0"
  by (intro conjI bit_word_eqI) (auto simp: bit_and_iff bit_or_iff bit_not_iff bit_Superscript bit_Subscript)

lemma flags_74:
  "((f OR Subscript) AND NOT Superscript) AND Subscript = Subscript
   \<and> ((f OR Subscript) AND NOT Superscript) AND Superscript = 0"
  by (intro conjI bit_word_eqI) (auto simp: bit_and_iff bit_or_iff bit_not_iff bit_Superscript bit_Subscript)

lemma flags_75:
  "(f AND NOT (Superscript OR Subscript)) AND Superscript = 0
   \<and> (f AND NOT (Superscript OR Subscript)) AND Subscript = 0"
  by (intro conjI bit_word_eqI) (auto simp: bit_and_iff bit_or_iff bit_not_iff)

lemma Superscript_nonzero: "Superscript \<noteq> 0" "Subscript \<noteq> 0"
  by (simp_all add: Superscript_def Subscript_def)

lemma and_not_nonzero: "(f AND NOT g) AND m \<noteq> 0 \<Longrightarrow> f AND m \<noteq> 0"
  for f g m :: styleFlags
  by (auto simp: bit_eq_iff bit_simps)

lemma or_disjoint: "g AND m = 0 \<Longrightarrow> (f OR g) AND m = f AND m"
  for f g m :: styleFlags
  by (auto simp: bit_eq_iff bit_simps)

lemma disjoint_flags:
  "Bold AND Superscript = 0" "Bold AND Subscript = 0"
  "Dim AND Superscript = 0" "Dim AND Subscript = 0"
  "Italic AND Superscript = 0" "Italic AND Subscript = 0"
  "Underline AND Superscript = 0" "Underline AND Subscript = 0"
  "Blink AND Superscript = 0" "Blink AND Subscript = 0"
  "Inverted AND Superscript = 0" "Inverted AND Subscript = 0"
  "Hidden AND Superscript = 0" "Hidden AND Subscript = 0"
  "Strikethrough AND Superscript = 0" "Strikethrough AND Subscript = 0"
  by (simp_all add: Bold_def Dim_def Italic_def Underline_def Blink_def Inverted_def Hidden_def
      Strikethrough_def Superscript_def Subscript_def)


lemma keeps_resetStyle: "keeps s (resetStyle flags s)"
  unfolding resetStyle_def
  by (rule keeps_store_copy) (auto simp: superAndSub_def hasStyle_def dest: and_not_nonzero)

lemma keeps_setStyle:
  "flags AND Superscript = 0 \<Longrightarrow> flags AND Subscript = 0 \<Longrightarrow> keeps s (setStyle flags s)"
  unfolding setStyle_def
  by (rule keeps_store_copy) (simp add: superAndSub_def hasStyle_def or_disjoint)

lemma style_73:
  "activeBundle (resetStyle Subscript (setStyle Superscript s)) =
     (activeBundle s)\<lparr>styleFlags := (styleFlags (activeBundle s) OR Superscript) AND NOT Subscript\<rparr>"
  by (simp add: resetStyle_def setStyle_def activeBundle_store_copy)

lemma style_74:
  "activeBundle (resetStyle Superscript (setStyle Subscript s)) =
     (activeBundle s)\<lparr>styleFlags := (styleFlags (activeBundle s) OR Subscript) AND NOT Superscript\<rparr>"
  by (simp add: resetStyle_def setStyle_def activeBundle_store_copy)

lemma style_75:
  "activeBundle (resetStyle (Superscript OR Subscript) s) =
     (activeBundle s)\<lparr>styleFlags := styleFlags (activeBundle s) AND NOT (Superscript OR Subscript)\<rparr>"
  by (simp add: resetStyle_def activeBundle_store_copy)

text \<open>Setting one of the two flags and clearing the other, as SGR 73 and 74 do.\<close>

lemma keeps_set_reset:
  "prefix (heap s) (heap (resetStyle g (setStyle f s)))
   \<and> (wellFormed s \<longrightarrow> wellFormed (resetStyle g (setStyle f s)))"
proof -
  have 1: "keeps (setStyle f s) (resetStyle g (setStyle f s))"
    by (rule keeps_resetStyle)
  have n: "cells (setStyle f s) = cells s"
    using heap_store_copy [of _ s] by (simp add: cells_def nodes_def setStyle_def)
  have 2: "prefix (heap s) (heap (setStyle f s))"
    using heap_store_copy [of _ s] by (simp add: setStyle_def)
  have 3: "wellFormed s \<longrightarrow> wellFormed (setStyle f s)"
    using wellFormed_grow [OF _ n] heap_store_copy [of _ s] unfolding setStyle_def by blast
  from 1 2 3 show ?thesis
    by (auto simp: keeps_def)
qed

lemma keeps_73: "keeps s (resetStyle Subscript (setStyle Superscript s))"
  using keeps_set_reset [of s Subscript Superscript]
  by (simp add: keeps_def style_73 superAndSub_def hasStyle_def flags_73)

lemma keeps_74: "keeps s (resetStyle Superscript (setStyle Subscript s))"
  using keeps_set_reset [of s Superscript Subscript]
  by (simp add: keeps_def style_74 superAndSub_def hasStyle_def flags_74)

lemma keeps_handleColorSeq:
  "(\<And>c s. keeps s (setColor c s)) \<Longrightarrow> keeps s (fst (handleColorSeq setColor nParams s))"
  by (simp add: handleColorSeq_def)

lemma keeps_sgrSwitch:
  "sgrSwitch p nParams s = Inl (s', n) \<or> sgrSwitch p nParams s = Inr s' \<Longrightarrow> keeps s s'"
  using keeps_handleColorSeq [of setFg s nParams, OF keeps_setFg]
        keeps_handleColorSeq [of setBg s nParams, OF keeps_setBg]
  by (auto simp: sgrSwitch_def resetFg_def resetBg_def disjoint_flags
      intro: keeps_resetAttributes keeps_setStyle keeps_resetStyle keeps_setFg keeps_setBg
        keeps_73 keeps_74
      split: if_splits)

lemma keeps_sgrRanges: "keeps s (sgrRanges p s)"
  by (simp add: sgrRanges_def keeps_setFg keeps_setBg)

lemma keeps_handleSGR: "handleSGR nParams s = Inr (s', n) \<Longrightarrow> keeps s s'"
proof -
  assume a: "handleSGR nParams s = Inr (s', n)"
  then obtain p ps where ps: "nParams = p # ps"
    by (cases nParams) (simp_all add: handleSGR_def)
  show ?thesis
  proof (cases "sgrSwitch p nParams s")
    case (Inl r)
    with a ps have "sgrSwitch p nParams s = Inl (s', n)"
      by (simp add: handleSGR_def)
    then show ?thesis
      using keeps_sgrSwitch by blast
  next
    case (Inr s1)
    with a ps have "s' = sgrRanges p s1"
      by (simp add: handleSGR_def)
    moreover from Inr have "keeps s s1"
      using keeps_sgrSwitch by blast
    ultimately show ?thesis
      using keeps_sgrRanges [of s1 p] by (blast intro: keeps_trans)
  qed
qed

lemma keeps_sgr_loop: "sgr_loop nParams s = Inr s' \<Longrightarrow> keeps s s'"
proof (induction nParams s rule: sgr_loop.induct)
  case (1 nParams s)
  show ?case
  proof (cases "0 < length nParams")
    case True
    with "1.prems" obtain s1 handled where h: "handleSGR nParams s = Inr (s1, handled)"
      and n: "\<not> length nParams < handled" and l: "sgr_loop (drop handled nParams) s1 = Inr s'"
      by (subst (asm) sgr_loop.simps) (auto split: sum.splits if_splits)
    from "1.IH" [OF True h refl n l] keeps_handleSGR [OF h] show ?thesis
      by (blast intro: keeps_trans)
  next
    case False
    with "1.prems" show ?thesis
      by (subst (asm) sgr_loop.simps) simp
  qed
qed


lemma keeps_onScreenF:
  "(\<And>s s'. f s = Inr s' \<Longrightarrow> keeps s s') \<Longrightarrow> onScreenF f t = Inr t' \<Longrightarrow>
   keeps (screen t) (screen t')"
  by (auto simp: onScreenF_def split: sum.splits)

lemma keeps_onScreen:
  "keeps (screen t) (f (screen t)) \<Longrightarrow> keeps (screen t) (screen (onScreen f t))"
  by (simp add: onScreen_def)

lemma screen_upgrade_loop: "upgrade_loop ns t = Inr t' \<Longrightarrow> screen t' = screen t"
proof (induction ns arbitrary: t)
  case Nil
  then show ?case by simp
next
  case (Cons n ns)
  show ?case
  proof (cases "n = 47 \<or> n = 1049")
    case True
    with Cons.prems obtain t1 where u: "upgrade t = Inr t1" and l: "upgrade_loop ns t1 = Inr t'"
      by (auto split: sum.splits)
    from u have "screen t1 = screen t"
      by (auto simp: upgrade_def Let_def split: if_splits)
    with Cons.IH [OF l] show ?thesis by simp
  next
    case False
    with Cons.prems Cons.IH show ?thesis by simp
  qed
qed

lemma keeps_printRune: "printRune r t = Inr t' \<Longrightarrow> keeps (screen t) (screen t')"
  unfolding printRune_def by (rule keeps_onScreenF [of "print r"]) (rule keeps_print)

lemma keeps_handleCtrl: "handleCtrl c t = Inr t' \<Longrightarrow> keeps (screen t) (screen t')"
  by (auto simp: handleCtrl_def onScreen_def keeps_cr keeps_newline
      intro: keeps_printRune keeps_onScreenF [of "left 1"] keeps_onScreenF [of backspace]
        keeps_left keeps_backspace
      split: if_splits)

lemma keeps_handleEsc: "handleEsc im final t = Inr t' \<Longrightarrow> keeps (screen t) (screen t')"
  by (auto simp: handleEsc_def onScreen_def
      intro: keeps_trans [OF keeps_newline keeps_resetAttributes] split: if_splits)

lemma keeps_handleOSC: "handleOSC ps t = Inr t' \<Longrightarrow> keeps (screen t) (screen t')"
  by (auto simp: handleOSC_def onScreen_def keeps_resetURI keeps_setURI split: if_splits)

lemma keeps_handleDSC: "handleDSC ps im final t = Inr t' \<Longrightarrow> keeps (screen t) (screen t')"
  by (auto simp: handleDSC_def)

lemma keeps_csiPlain: "csiPlain ps im final t = Inr t' \<Longrightarrow> keeps (screen t) (screen t')"
  by (auto simp: csiPlain_def onScreen_def Let_def keeps_newlines keeps_clear
      dest: screen_upgrade_loop
      intro: keeps_onScreenF [of "right n" for n] keeps_onScreenF [of "left n" for n]
        keeps_onScreenF [of clearRight] keeps_onScreenF [of clearLeft]
        keeps_onScreenF [of "setPos x y" for x y] keeps_onScreenF [of "sgr_loop n" for n]
        keeps_right keeps_left keeps_clearRight keeps_clearLeft keeps_setPos keeps_sgr_loop
      split: if_splits sum.splits)

lemma keeps_handleCSI: "handleCSI ps im final t = Inr t' \<Longrightarrow> keeps (screen t) (screen t')"
proof -
  assume a: "handleCSI ps im final t = Inr t'"
  then obtain t1 where 1: "(if im = [] then csiPlain ps im final t else Inr t) = Inr t1"
    and 2: "t' = (if im = [0x21] \<and> final = 0x70 then onScreen resetAttributes t1 else t1)"
    by (auto simp: handleCSI_def split: if_splits sum.splits)
  from 1 have "keeps (screen t) (screen t1)"
    by (auto split: if_splits intro: keeps_csiPlain)
  moreover from 2 have "keeps (screen t1) (screen t')"
    by (simp add: onScreen_def keeps_resetAttributes)
  ultimately show ?thesis
    by (rule keeps_trans)
qed

lemma keeps_dispatch: "dispatch e t = Inr t' \<Longrightarrow> keeps (screen t) (screen t')"
  by (cases e)
    (auto intro: keeps_printRune keeps_handleCtrl keeps_handleEsc keeps_handleOSC
       keeps_handleCSI keeps_handleDSC)

lemma keeps_dispatchAll: "dispatchAll es t = Inr t' \<Longrightarrow> keeps (screen t) (screen t')"
proof (induction es arbitrary: t)
  case Nil
  then show ?case by simp
next
  case (Cons e es)
  then obtain t1 where 1: "dispatch e t = Inr t1" and 2: "dispatchAll es t1 = Inr t'"
    by (auto split: sum.splits)
  from keeps_dispatch [OF 1] Cons.IH [OF 2] show ?case
    by (rule keeps_trans)
qed

lemma wellFormed_New: "wellFormed (screen (withGrowth g (New hook)))"
  by (simp add: wellFormed_def withGrowth_def New_def newScreen_def cells_def nodes_def)

lemma not_superAndSub_New: "\<not> superAndSub (activeBundle (screen (withGrowth g (New hook))))"
  by (simp add: superAndSub_def hasStyle_def withGrowth_def New_def newScreen_def
      activeBundle_def zeroAttributes_def)


lemma installs_store_copy: "installs s (f (activeBundle s)) (storeActive f (copyAttributes s))"
  using heap_store_copy [of f s] by (simp add: installs_def)

text \<open>
  Claim C9: in every state the terminal reaches from \<open>New\<close> through its dispatch
  handlers, whatever arrays the runtime gives the active line, the active bundle does
  not have both the Superscript and the Subscript flag. SGR 73 sets Superscript and
  clears Subscript, SGR 74 sets Subscript and clears Superscript, SGR 75 clears both.
\<close>

theorem superscript_subscript_exclusive:
  "(dispatchAll es (withGrowth g (New hook)) = Inr t \<longrightarrow>
      \<not> (hasStyle (activeBundle (screen t)) Superscript
         \<and> hasStyle (activeBundle (screen t)) Subscript))
   \<and> (\<exists>s'. handleSGR (73 # ps) s = Inr (s', 1)
          \<and> hasStyle (activeBundle s') Superscript \<and> \<not> hasStyle (activeBundle s') Subscript)
   \<and> (\<exists>s'. handleSGR (74 # ps) s = Inr (s', 1)
          \<and> hasStyle (activeBundle s') Subscript \<and> \<not> hasStyle (activeBundle s') Superscript)
   \<and> (\<exists>s'. handleSGR (75 # ps) s = Inr (s', 1)
          \<and> \<not> hasStyle (activeBundle s') Superscript \<and> \<not> hasStyle (activeBundle s') Subscript)"
proof (intro conjI impI)
  assume "dispatchAll es (withGrowth g (New hook)) = Inr t"
  then have "keeps (screen (withGrowth g (New hook))) (screen t)"
    by (rule keeps_dispatchAll)
  with not_superAndSub_New [of g hook]
  show "\<not> (hasStyle (activeBundle (screen t)) Superscript
         \<and> hasStyle (activeBundle (screen t)) Subscript)"
    by (auto simp: keeps_def superAndSub_def)
next
  have "handleSGR (73 # ps) s = Inr (resetStyle Subscript (setStyle Superscript s), 1)"
    by (simp add: handleSGR_def sgrSwitch_def sgrRanges_def)
  then show "\<exists>s'. handleSGR (73 # ps) s = Inr (s', 1)
          \<and> hasStyle (activeBundle s') Superscript \<and> \<not> hasStyle (activeBundle s') Subscript"
    by (simp add: style_73 hasStyle_def flags_73 Superscript_nonzero)
next
  have "handleSGR (74 # ps) s = Inr (resetStyle Superscript (setStyle Subscript s), 1)"
    by (simp add: handleSGR_def sgrSwitch_def sgrRanges_def)
  then show "\<exists>s'. handleSGR (74 # ps) s = Inr (s', 1)
          \<and> hasStyle (activeBundle s') Subscript \<and> \<not> hasStyle (activeBundle s') Superscript"
    by (simp add: style_74 hasStyle_def flags_74 Superscript_nonzero)
next
  have "handleSGR (75 # ps) s = Inr (resetStyle (Superscript OR Subscript) s, 1)"
    by (simp add: handleSGR_def sgrSwitch_def sgrRanges_def)
  then show "\<exists>s'. handleSGR (75 # ps) s = Inr (s', 1)
          \<and> \<not> hasStyle (activeBundle s') Superscript \<and> \<not> hasStyle (activeBundle s') Subscript"
    using flags_75 [of "styleFlags (activeBundle s)"] by (simp add: style_75 hasStyle_def)
qed

text \<open>
  The events of \<open>a b c d ESC[2D ESC[K CR ESC[4C ESC[K ESC[73;1;74m x\<close>, with arrays
  of 1, 2 and 4 cells: the second \<open>ESC[K\<close> reslices the line of length 2 to 4 cells
  and brings \<open>c\<close> and \<open>d\<close> back; the terminal does not panic, and the bundle of
  \<open>x\<close> has Subscript (1024) and Bold (1) without Superscript (512).
\<close>

theorem superscript_subscript_exclusive_witness:
  "(\<exists>t. dispatchAll
          [PrintRune 0x61, PrintRune 0x62, PrintRune 0x63, PrintRune 0x64,
           HandleCSI [str ''2''] [] 0x44, HandleCSI [[]] [] 0x4B, HandleCtrl 0x0D,
           HandleCSI [str ''4''] [] 0x43, HandleCSI [[]] [] 0x4B,
           HandleCSI [str ''73'', str ''1'', str ''74''] [] 0x6D, PrintRune 0x78]
          (withGrowth [0, 0, 1] (New True)) = Inr t
        \<and> map rune (activeLine (screen t)) = [0x20, 0x20, 0x63, 0x64, 0x78]
        \<and> styleFlags (activeBundle (screen t)) = 1025
        \<and> \<not> (hasStyle (activeBundle (screen t)) Superscript
              \<and> hasStyle (activeBundle (screen t)) Subscript))
   \<and> (\<exists>s'. handleSGR [73] newScreen = Inr (s', 1)
          \<and> hasStyle (activeBundle s') Superscript \<and> \<not> hasStyle (activeBundle s') Subscript)"
proof -
  let ?r = "dispatchAll
          [PrintRune 0x61, PrintRune 0x62, PrintRune 0x63, PrintRune 0x64,
           HandleCSI [str ''2''] [] 0x44, HandleCSI [[]] [] 0x4B, HandleCtrl 0x0D,
           HandleCSI [str ''4''] [] 0x43, HandleCSI [[]] [] 0x4B,
           HandleCSI [str ''73'', str ''1'', str ''74''] [] 0x6D, PrintRune 0x78]
          (withGrowth [0, 0, 1] (New True))"
  have "case ?r of Inl f \<Rightarrow> False
        | Inr t \<Rightarrow> map rune (activeLine (screen t)) = [0x20, 0x20, 0x63, 0x64, 0x78]
            \<and> styleFlags (activeBundle (screen t)) = 1025"
    by code_simp
  then obtain t where t: "?r = Inr t"
    "map rune (activeLine (screen t)) = [0x20, 0x20, 0x63, 0x64, 0x78]"
    "styleFlags (activeBundle (screen t)) = 1025"
    by (cases ?r) simp_all
  note th = superscript_subscript_exclusive [where g = "[0, 0, 1]" and hook = True and t = t
      and ps = "[]" and s = newScreen]
  from th [THEN conjunct1, THEN mp, OF t(1)]
  have a: "\<not> (hasStyle (activeBundle (screen t)) Superscript
              \<and> hasStyle (activeBundle (screen t)) Subscript)" .
  from th [THEN conjunct2, THEN conjunct1]
  have b: "\<exists>s'. handleSGR [73] newScreen = Inr (s', 1)
          \<and> hasStyle (activeBundle s') Superscript \<and> \<not> hasStyle (activeBundle s') Subscript" .
  from t a have "\<exists>t. ?r = Inr t
        \<and> map rune (activeLine (screen t)) = [0x20, 0x20, 0x63, 0x64, 0x78]
        \<and> styleFlags (activeBundle (screen t)) = 1025
        \<and> \<not> (hasStyle (activeBundle (screen t)) Superscript
              \<and> hasStyle (activeBundle (screen t)) Subscript)"
    by (intro exI [of _ t] conjI)
  then show ?thesis
    using b by (rule conjI)
qed

text \<open>
  Claim C4: a bundle a node references is never mutated. For a state \<open>t\<close> reached from
  \<open>New\<close>, whatever arrays the runtime gives the active line, and any later state
  \<open>t'\<close>: every node of \<open>t\<close>, in the active line, in the scrollback or in a cell of the
  array behind the active line that a later reslice brings back, holds \<open>nil\<close> (the
  zero cell of a fresh array, written by no one) or the address of an allocated bundle
  whose content in \<open>t'\<close> is its content in \<open>t\<close>. From any state at all, no dispatch
  changes a cell of the store allocated before it. Every attribute mutator allocates the
  changed copy in a fresh cell and points \<open>activeAttributes\<close> to it, and
  \<open>resetAttributes\<close> installs a fresh all-defaults bundle.
\<close>

theorem bundles_never_mutated:
  "(dispatchAll es (withGrowth g (New hook)) = Inr t \<and> dispatchAll es' t = Inr t' \<longrightarrow>
      (\<forall>n\<in>cells (screen t). \<forall>a. attrs n = Some a \<longrightarrow>
          a < length (heap (screen t))
          \<and> heap (screen t') ! a = heap (screen t) ! a))
   \<and> (dispatchAll es u = Inr u' \<longrightarrow>
        (\<forall>a<length (heap (screen u)). heap (screen u') ! a = heap (screen u) ! a))
   \<and> installs s ((activeBundle s)\<lparr>styleFlags := styleFlags (activeBundle s) OR flags\<rparr>) (setStyle flags s)
   \<and> installs s ((activeBundle s)\<lparr>styleFlags := styleFlags (activeBundle s) AND NOT flags\<rparr>)
        (resetStyle flags s)
   \<and> installs s ((activeBundle s)\<lparr>fg := c\<rparr>) (setFg c s)
   \<and> installs s ((activeBundle s)\<lparr>bg := c\<rparr>) (setBg c s)
   \<and> installs s ((activeBundle s)\<lparr>fg := None\<rparr>) (resetFg s)
   \<and> installs s ((activeBundle s)\<lparr>bg := None\<rparr>) (resetBg s)
   \<and> installs s ((activeBundle s)\<lparr>uri := x\<rparr>) (setURI x s)
   \<and> installs s ((activeBundle s)\<lparr>uri := []\<rparr>) (resetURI s)
   \<and> installs s zeroAttributes (resetAttributes s)"
proof (intro conjI impI ballI allI)
  fix n a
  assume d: "dispatchAll es (withGrowth g (New hook)) = Inr t \<and> dispatchAll es' t = Inr t'"
    and n: "n \<in> cells (screen t)" and a: "attrs n = Some a"
  from d keeps_dispatchAll [of es "withGrowth g (New hook)" t] wellFormed_New [of g hook]
  have "wellFormed (screen t)"
    by (simp add: keeps_def)
  with n a show 1: "a < length (heap (screen t))"
    by (simp add: wellFormed_def)
  from d keeps_dispatchAll [of es' t t'] have "prefix (heap (screen t)) (heap (screen t'))"
    by (simp add: keeps_def)
  with 1 show "heap (screen t') ! a = heap (screen t) ! a"
    by (auto simp: prefix_def nth_append)
next
  fix a
  assume "dispatchAll es u = Inr u'" and "a < length (heap (screen u))"
  with keeps_dispatchAll [of es u u'] show "heap (screen u') ! a = heap (screen u) ! a"
    by (auto simp: keeps_def prefix_def nth_append)
next
  show "installs s ((activeBundle s)\<lparr>styleFlags := styleFlags (activeBundle s) OR flags\<rparr>)
      (setStyle flags s)"
    unfolding setStyle_def
    by (rule installs_store_copy [of s "\<lambda>a. a\<lparr>styleFlags := styleFlags a OR flags\<rparr>"])
  show "installs s ((activeBundle s)\<lparr>styleFlags := styleFlags (activeBundle s) AND NOT flags\<rparr>)
      (resetStyle flags s)"
    unfolding resetStyle_def
    by (rule installs_store_copy [of s "\<lambda>a. a\<lparr>styleFlags := styleFlags a AND NOT flags\<rparr>"])
  show "installs s ((activeBundle s)\<lparr>fg := c\<rparr>) (setFg c s)"
    unfolding setFg_def by (rule installs_store_copy [of s "\<lambda>a. a\<lparr>fg := c\<rparr>"])
  show "installs s ((activeBundle s)\<lparr>bg := c\<rparr>) (setBg c s)"
    unfolding setBg_def by (rule installs_store_copy [of s "\<lambda>a. a\<lparr>bg := c\<rparr>"])
  show "installs s ((activeBundle s)\<lparr>fg := None\<rparr>) (resetFg s)"
    unfolding resetFg_def setFg_def by (rule installs_store_copy [of s "\<lambda>a. a\<lparr>fg := None\<rparr>"])
  show "installs s ((activeBundle s)\<lparr>bg := None\<rparr>) (resetBg s)"
    unfolding resetBg_def setBg_def by (rule installs_store_copy [of s "\<lambda>a. a\<lparr>bg := None\<rparr>"])
  show "installs s ((activeBundle s)\<lparr>uri := x\<rparr>) (setURI x s)"
    unfolding setURI_def by (rule installs_store_copy [of s "\<lambda>a. a\<lparr>uri := x\<rparr>"])
  show "installs s ((activeBundle s)\<lparr>uri := []\<rparr>) (resetURI s)"
    unfolding resetURI_def by (rule installs_store_copy [of s "\<lambda>a. a\<lparr>uri := []\<rparr>"])
  show "installs s zeroAttributes (resetAttributes s)"
    by (simp add: installs_def resetAttributes_def)
qed

text \<open>
  The events of \<open>a b ESC[1m c d ESC[2D ESC[K CR ESC[4C ESC[K\<close>, with arrays of 1, 2
  and 4 cells: the second \<open>ESC[K\<close> reslices the line of length 2 to 4 cells and
  brings back \<open>c\<close> and \<open>d\<close> with their bold bundle, the cell 1 of the store. After
  \<open>ESC[4m x\<close> the bold and underlined bundle of \<open>x\<close> is the new cell 2, and cell 1
  is as it was.
\<close>

theorem bundles_never_mutated_witness:
  "dispatchAll
       [PrintRune 0x61, PrintRune 0x62, HandleCSI [str ''1''] [] 0x6D, PrintRune 0x63,
        PrintRune 0x64, HandleCSI [str ''2''] [] 0x44, HandleCSI [[]] [] 0x4B, HandleCtrl 0x0D,
        HandleCSI [str ''4''] [] 0x43, HandleCSI [[]] [] 0x4B]
       (withGrowth [0, 0, 1] (New True))
     = Inr ((New True)\<lparr>screen :=
              \<lparr>heap = [zeroAttributes, zeroAttributes\<lparr>styleFlags := 1\<rparr>], scrollback = [],
               activeLine = [\<lparr>rune = 0x20, attrs = Some 1\<rparr>, \<lparr>rune = 0x20, attrs = Some 1\<rparr>,
                             \<lparr>rune = 0x63, attrs = Some 1\<rparr>, \<lparr>rune = 0x64, attrs = Some 1\<rparr>],
               spare = [], growth = [], pos = 4, activeAttributes = 1\<rparr>\<rparr>)
   \<and> dispatchAll [HandleCSI [str ''4''] [] 0x6D, PrintRune 0x78]
       ((New True)\<lparr>screen :=
              \<lparr>heap = [zeroAttributes, zeroAttributes\<lparr>styleFlags := 1\<rparr>], scrollback = [],
               activeLine = [\<lparr>rune = 0x20, attrs = Some 1\<rparr>, \<lparr>rune = 0x20, attrs = Some 1\<rparr>,
                             \<lparr>rune = 0x63, attrs = Some 1\<rparr>, \<lparr>rune = 0x64, attrs = Some 1\<rparr>],
               spare = [], growth = [], pos = 4, activeAttributes = 1\<rparr>\<rparr>)
     = Inr ((New True)\<lparr>screen :=
              \<lparr>heap = [zeroAttributes, zeroAttributes\<lparr>styleFlags := 1\<rparr>,
                       zeroAttributes\<lparr>styleFlags := 9\<rparr>], scrollback = [],
               activeLine = [\<lparr>rune = 0x20, attrs = Some 1\<rparr>, \<lparr>rune = 0x20, attrs = Some 1\<rparr>,
                             \<lparr>rune = 0x63, attrs = Some 1\<rparr>, \<lparr>rune = 0x64, attrs = Some 1\<rparr>,
                             \<lparr>rune = 0x78, attrs = Some 2\<rparr>],
               spare = [], growth = [], pos = 5, activeAttributes = 2\<rparr>\<rparr>)
   \<and> [zeroAttributes, zeroAttributes\<lparr>styleFlags := 1\<rparr>, zeroAttributes\<lparr>styleFlags := 9\<rparr>] ! 1
       = [zeroAttributes, zeroAttributes\<lparr>styleFlags := 1\<rparr>] ! 1"
proof -
  let ?es = "[PrintRune 0x61, PrintRune 0x62, HandleCSI [str ''1''] [] 0x6D, PrintRune 0x63,
        PrintRune 0x64, HandleCSI [str ''2''] [] 0x44, HandleCSI [[]] [] 0x4B, HandleCtrl 0x0D,
        HandleCSI [str ''4''] [] 0x43, HandleCSI [[]] [] 0x4B]"
  let ?t = "(New True)\<lparr>screen :=
              \<lparr>heap = [zeroAttributes, zeroAttributes\<lparr>styleFlags := 1\<rparr>], scrollback = [],
               activeLine = [\<lparr>rune = 0x20, attrs = Some 1\<rparr>, \<lparr>rune = 0x20, attrs = Some 1\<rparr>,
                             \<lparr>rune = 0x63, attrs = Some 1\<rparr>, \<lparr>rune = 0x64, attrs = Some 1\<rparr>],
               spare = [], growth = [], pos = 4, activeAttributes = 1\<rparr>\<rparr>"
  let ?t' = "(New True)\<lparr>screen :=
              \<lparr>heap = [zeroAttributes, zeroAttributes\<lparr>styleFlags := 1\<rparr>,
                       zeroAttributes\<lparr>styleFlags := 9\<rparr>], scrollback = [],
               activeLine = [\<lparr>rune = 0x20, attrs = Some 1\<rparr>, \<lparr>rune = 0x20, attrs = Some 1\<rparr>,
                             \<lparr>rune = 0x63, attrs = Some 1\<rparr>, \<lparr>rune = 0x64, attrs = Some 1\<rparr>,
                             \<lparr>rune = 0x78, attrs = Some 2\<rparr>],
               spare = [], growth = [], pos = 5, activeAttributes = 2\<rparr>\<rparr>"
  have 1: "dispatchAll ?es (withGrowth [0, 0, 1] (New True)) = Inr ?t"
    by code_simp
  have 2: "dispatchAll [HandleCSI [str ''4''] [] 0x6D, PrintRune 0x78] ?t = Inr ?t'"
    by code_simp
  have 3: "\<lparr>rune = 0x63, attrs = Some 1\<rparr> \<in> cells (screen ?t)"
    by (simp add: cells_def nodes_def)
  have 4: "attrs \<lparr>rune = 0x63, attrs = Some (1 :: nat)\<rparr> = Some 1"
    by simp
  from bundles_never_mutated [THEN conjunct1, rule_format, OF conjI [OF 1 2] 3 4]
  have "heap (screen ?t') ! 1 = heap (screen ?t) ! 1"
    by simp
  then have 5: "[zeroAttributes, zeroAttributes\<lparr>styleFlags := 1\<rparr>, zeroAttributes\<lparr>styleFlags := 9\<rparr>] ! 1
       = [zeroAttributes, zeroAttributes\<lparr>styleFlags := 1\<rparr>] ! 1"
    by simp
  have "(1 :: nat) < length (heap (screen ?t))"
    by simp
  with bundles_never_mutated [THEN conjunct2, THEN conjunct1, THEN mp, OF 2]
  have "heap (screen ?t') ! 1 = heap (screen ?t) ! 1"
    by blast
  with 1 2 5 show ?thesis
    by (intro conjI)
qed

end
